theory Spec2Isabelle
  imports Complex_Main "HOL-Library.Sublist" "HOL-Library.Word"
begin

section \<open>Values shared by the route handlers\<close>

text \<open>
  A text is a list of code units; the model covers code units below 256, which is what
  \<^typ>\<open>char\<close> holds. A number is a real: the handlers only compare, add and scale the
  numbers they see, and the model leaves rounding and NaN aside.
\<close>

datatype json =
    JNull
  | JBool bool
  | JNum real
  | JStr string
  | JArr "json list"
  | JObj "(string \<times> json) list"

text \<open>An \<open>Error\<close> object as the handlers read it: its \<open>name\<close> and its \<open>message\<close>.\<close>

record js_error =
  name :: string
  message :: string

text \<open>What \<open>NextResponse.json(body, { status })\<close> builds; the status defaults to 200.\<close>

record http_response =
  status :: nat
  body :: json

subsection \<open>String methods\<close>

fun startsWith :: "string \<Rightarrow> string \<Rightarrow> bool" where
  "startsWith s [] = True"
| "startsWith [] (c # cs) = False"
| "startsWith (x # xs) (c # cs) = (x = c \<and> startsWith xs cs)"

definition endsWith :: "string \<Rightarrow> string \<Rightarrow> bool" where
  "endsWith s t = startsWith (rev s) (rev t)"

text \<open>\<open>s.includes(t)\<close>: \<open>t\<close> occurs in \<open>s\<close> as a contiguous run.\<close>

fun includes_text :: "string \<Rightarrow> string \<Rightarrow> bool" where
  "includes_text [] t = (t = [])"
| "includes_text (x # xs) t = (startsWith (x # xs) t \<or> includes_text xs t)"

text \<open>
  \<open>s.trim()\<close> strips white space and line terminators from both ends. Of the code units
  below 256 these are TAB, LF, VT, FF, CR, SP and NBSP.
\<close>

definition whitespace :: "char \<Rightarrow> bool" where
  "whitespace c = (of_char c \<in> {9, 10, 11, 12, 13, 32, 160 :: nat})"

definition trim :: "string \<Rightarrow> string" where
  "trim s = rev (dropWhile whitespace (rev (dropWhile whitespace s)))"

section \<open>The top-crypto route\<close>

text \<open>
  One element of the upstream ticker array, as \<open>GET\<close> reads it. \<open>quoteVolume\<close> is
  \<open>None\<close> when the field is absent or falsy, so that \<open>d.quoteVolume || 0\<close> is 0;
  otherwise it holds the number that \<open>Number\<close> makes of the field.
\<close>

record ticker =
  symbol :: string
  quoteVolume :: "real option"
  lastPrice :: real
  priceChangePercent :: real
  volume :: real

text \<open>What \<open>await fetch(BINANCE_URL)\<close> and \<open>await res.json()\<close> give the handler.\<close>

datatype upstream =
    FetchThrew js_error
  | NotOk string
  | Tickers "ticker list"

text \<open>The filter callback of lines 22 to 31.\<close>

definition usdtPair :: "ticker \<Rightarrow> bool" where
  "usdtPair d =
     (let s = symbol d in
        endsWith s ''USDT'' \<and>
        \<not> includes_text s ''UP'' \<and>
        \<not> includes_text s ''DOWN'' \<and>
        \<not> includes_text s ''BULL'' \<and>
        \<not> includes_text s ''BEAR'')"

text \<open>The comparator of lines 33 and 34.\<close>

definition quoteVolumeNumber :: "ticker \<Rightarrow> real" where
  "quoteVolumeNumber d = (case quoteVolume d of None \<Rightarrow> 0 | Some v \<Rightarrow> v)"

definition byQuoteVolume :: "ticker \<Rightarrow> ticker \<Rightarrow> real" where
  "byQuoteVolume a b = quoteVolumeNumber b - quoteVolumeNumber a"

text \<open>
  \<open>Array.prototype.sort\<close> with a comparator is a stable sort: \<open>a\<close> stays before \<open>b\<close>
  unless the comparator is positive. For a consistent comparator the result does not
  depend on the engine's algorithm; it is written here as an insertion sort.
\<close>

fun insert_by :: "('a \<Rightarrow> 'a \<Rightarrow> real) \<Rightarrow> 'a \<Rightarrow> 'a list \<Rightarrow> 'a list" where
  "insert_by cmp x [] = [x]"
| "insert_by cmp x (y # ys) =
     (if cmp x y \<le> 0 then x # y # ys else y # insert_by cmp x ys)"

definition sort_by :: "('a \<Rightarrow> 'a \<Rightarrow> real) \<Rightarrow> 'a list \<Rightarrow> 'a list" where
  "sort_by cmp xs = foldr (insert_by cmp) xs []"

definition usdtPairs :: "ticker list \<Rightarrow> ticker list" where
  "usdtPairs data = sort_by byQuoteVolume (filter usdtPair data)"

text \<open>The object that the \<open>map\<close> callback of lines 37 to 42 builds.\<close>

definition coin :: "ticker \<Rightarrow> json" where
  "coin d =
     JObj [(''symbol'', JStr (symbol d)),
           (''lastPrice'', JNum (lastPrice d)),
           (''priceChangePercent'', JNum (priceChangePercent d)),
           (''volume'', JNum (volume d))]"

definition top25 :: "ticker list \<Rightarrow> json list" where
  "top25 data = map coin (take 25 (usdtPairs data))"

definition GET :: "upstream \<Rightarrow> http_response" where
  "GET res =
     (case res of
        NotOk txt \<Rightarrow>
          \<lparr>status = 500,
           body = JObj [(''error'', JStr ''Failed to fetch tickers from Binance''),
                        (''detail'', JStr txt)]\<rparr>
      | Tickers data \<Rightarrow>
          \<lparr>status = 200, body = JObj [(''coins'', JArr (top25 data))]\<rparr>
      | FetchThrew err \<Rightarrow>
          \<lparr>status = 500,
           body = JObj [(''error'', JStr ''Failed to fetch top crypto prices''),
                        (''detail'', JStr (message err))]\<rparr>)"

section \<open>The chat route\<close>

subsection \<open>The agent call and what surrounds the handler\<close>

type_synonym byte = "8 word"

text \<open>
  One event of the streamed completion. \<open>Chunk (Some bytes)\<close> is an event whose chunk
  carries bytes, \<open>Chunk None\<close> one whose chunk carries none, \<open>NoChunk\<close> an event of
  another kind.
\<close>

datatype stream_event = Chunk "byte list option" | NoChunk

text \<open>
  The answer of \<open>bedrockClient.send\<close>. \<open>completion\<close> is \<open>None\<close> when the field is
  absent; otherwise it is the events of a stream that ends, and the error the stream
  throws at its end, if it throws one.
\<close>

record agent_response =
  completion :: "(stream_event list \<times> js_error option) option"

record command =
  agentId :: string
  agentAliasId :: string
  sessionId :: string
  inputText :: string

text \<open>A value that a \<open>throw\<close> carries: an \<open>Error\<close> object, or \<open>undefined\<close>.\<close>

datatype thrown = ThrownUndefined | Thrown js_error

text \<open>
  What the module does to the outside, in the order it does it: a timer that ran for
  the given delay, the write of a time stamp to the pacing state, an agent call.
\<close>

datatype event = Slept real | Recorded string int | Sent command

text \<open>
  What the process gives the module: two environment variables, the outcome of the
  \<open>i\<close>-th call of \<open>bedrockClient.send\<close>, the \<open>i\<close>-th value of \<open>Math.random()\<close> and of
  \<open>crypto.randomUUID()\<close>, by how many milliseconds the \<open>i\<close>-th timer fires late, what
  \<open>TextDecoder.decode\<close> makes of a byte array, and the \<open>TypeError\<close> of destructuring
  \<open>null\<close>.
\<close>

record env =
  BEDROCK_AGENT_ID :: "string option"
  BEDROCK_AGENT_ALIAS_ID :: "string option"
  bedrockSend :: "nat \<Rightarrow> command \<Rightarrow> js_error + agent_response"
  mathRandom :: "nat \<Rightarrow> real"
  randomUUID :: "nat \<Rightarrow> string"
  timerLateness :: "nat \<Rightarrow> nat"
  textDecode :: "byte list \<Rightarrow> string"
  destructureNull :: js_error

text \<open>
  The state of the process: the value \<open>Date.now()\<close> returns, the two module variables
  \<open>lastCallPerSession\<close> and \<open>lastGlobalCall\<close>, how many agent calls, random draws,
  identifiers and timers there have been, and the events so far. What the handlers
  write to the console is left out.
\<close>

record world =
  clock :: int
  lastCallPerSession :: "string \<rightharpoonup> int"
  lastGlobalCall :: int
  sends :: nat
  draws :: nat
  uuids :: nat
  timers :: nat
  trace :: "event list"

definition env_or :: "string option \<Rightarrow> string \<Rightarrow> string" where
  "env_or v d = (case v of None \<Rightarrow> d | Some s \<Rightarrow> if s = [] then d else s)"

definition AGENT_ID :: "env \<Rightarrow> string" where
  "AGENT_ID en = env_or (BEDROCK_AGENT_ID en) ''HYEOBH27GN''"

definition AGENT_ALIAS_ID :: "env \<Rightarrow> string" where
  "AGENT_ALIAS_ID en = env_or (BEDROCK_AGENT_ALIAS_ID en) ''HKYBMPQHTH''"

text \<open>
  \<open>sleep(ms)\<close> resolves when its timer fires. The timer is taken to fire no earlier
  than asked: the clock, which counts whole milliseconds, moves on by the delay rounded
  up plus the timer's lateness.
\<close>

definition sleep :: "env \<Rightarrow> real \<Rightarrow> world \<Rightarrow> world" where
  "sleep en ms w =
     w\<lparr>clock := clock w + \<lceil>ms\<rceil> + int (timerLateness en (timers w)),
       timers := timers w + 1,
       trace := trace w @ [Slept ms]\<rparr>"

subsection \<open>The cadence limiter\<close>

definition SESSION_DELAY :: int where
  "SESSION_DELAY = 2000"

definition GLOBAL_DELAY :: int where
  "GLOBAL_DELAY = 800"

text \<open>\<open>lastCallPerSession.get(sessionId) || 0\<close>.\<close>

definition or_zero :: "int option \<Rightarrow> int" where
  "or_zero v = (case v of None \<Rightarrow> 0 | Some t \<Rightarrow> if t = 0 then 0 else t)"

definition sessionLag :: "world \<Rightarrow> string \<Rightarrow> int" where
  "sessionLag w sid = or_zero (lastCallPerSession w sid) + SESSION_DELAY - clock w"

definition globalLag :: "world \<Rightarrow> int" where
  "globalLag w = lastGlobalCall w + GLOBAL_DELAY - clock w"

definition waitFor :: "world \<Rightarrow> string \<Rightarrow> int" where
  "waitFor w sid = max (max (sessionLag w sid) (globalLag w)) 0"

definition enforceCadence :: "env \<Rightarrow> string \<Rightarrow> world \<Rightarrow> world" where
  "enforceCadence en sid w =
     (let w1 = (if waitFor w sid > 0 then sleep en (real_of_int (waitFor w sid)) w else w);
          timestamp = clock w1
      in w1\<lparr>lastCallPerSession := (lastCallPerSession w1)(sid \<mapsto> timestamp),
            lastGlobalCall := timestamp,
            trace := trace w1 @ [Recorded sid timestamp]\<rparr>)"

text \<open>
  Serialized invocation: the calls of \<open>enforceCadence\<close> run one after the other, each
  to its end, and between two of them the clock moves on by some number of
  milliseconds. \<open>permitted\<close> lists, call by call, the session, the time stamp written to
  the session's entry and the time stamp written to \<open>lastGlobalCall\<close>.
\<close>

datatype step = Tick nat | Acquire string

fun run :: "env \<Rightarrow> step list \<Rightarrow> world \<Rightarrow> world" where
  "run en [] w = w"
| "run en (Tick d # ss) w = run en ss (w\<lparr>clock := clock w + int d\<rparr>)"
| "run en (Acquire sid # ss) w = run en ss (enforceCadence en sid w)"

fun permitted :: "env \<Rightarrow> step list \<Rightarrow> world \<Rightarrow> (string \<times> int \<times> int) list" where
  "permitted en [] w = []"
| "permitted en (Tick d # ss) w = permitted en ss (w\<lparr>clock := clock w + int d\<rparr>)"
| "permitted en (Acquire sid # ss) w =
     (sid, or_zero (lastCallPerSession (enforceCadence en sid w) sid),
        lastGlobalCall (enforceCadence en sid w))
     # permitted en ss (enforceCadence en sid w)"

subsection \<open>The retry policy\<close>

text \<open>
  Lines 43 to 47: the wait before an attempt. \<open>Math.pow(2, attempt - 1)\<close> is a power
  of two, since the attempt is positive there.
\<close>

definition backoff :: "env \<Rightarrow> nat \<Rightarrow> world \<Rightarrow> world" where
  "backoff en attempt w =
     (if attempt > 0
      then (let base = 500 * 2 ^ (attempt - 1);
                jitter = mathRandom en (draws w) * 250
            in sleep en (base + jitter) (w\<lparr>draws := draws w + 1\<rparr>))
      else w)"

text \<open>
  Lines 147 to 150: the wait of the second \<open>callBedrockWithRetry\<close> of the repository,
  which its comment calls the simple backoff.
\<close>

definition backoff_simple :: "env \<Rightarrow> nat \<Rightarrow> world \<Rightarrow> world" where
  "backoff_simple en attempt w =
     (if attempt > 0
      then (let delay = 300 * real attempt in sleep en delay w)
      else w)"

text \<open>Line 48: one call of \<open>bedrockClient.send(command)\<close> and its outcome.\<close>

definition invoke :: "env \<Rightarrow> command \<Rightarrow> world \<Rightarrow> (js_error + agent_response) \<times> world" where
  "invoke en cmd w =
     (bedrockSend en (sends w) cmd,
      w\<lparr>sends := sends w + 1, trace := trace w @ [Sent cmd]\<rparr>)"

text \<open>Lines 50 to 55: the test of the \<open>catch\<close> block, on \<open>err?.message || ''\<close> and \<open>err.name\<close>.\<close>

definition throttling :: "js_error \<Rightarrow> bool" where
  "throttling err =
     (includes_text (message err) ''Your request rate is too high''
      \<or> name err = ''ThrottlingException'')"

text \<open>
  The loop of \<open>callBedrockWithRetry\<close> from the given attempt on. The two functions of
  that name (lines 39 to 64 and lines 143 to 167) are the same loop around two
  different waits, so the wait is an argument. \<open>maxRetries\<close> is an integer of either
  sign; with no attempt made, the \<open>throw lastError\<close> after the loop throws \<open>undefined\<close>.
\<close>

function retryLoop ::
  "(env \<Rightarrow> nat \<Rightarrow> world \<Rightarrow> world) \<Rightarrow> env \<Rightarrow> command \<Rightarrow> int \<Rightarrow> nat \<Rightarrow> js_error option \<Rightarrow> world
     \<Rightarrow> (thrown + agent_response) \<times> world"
where
  "retryLoop wait en cmd maxRetries attempt lastError w =
     (if int attempt \<le> maxRetries then
        (let (outcome, w2) = invoke en cmd (wait en attempt w)
         in case outcome of
              Inr response \<Rightarrow> (Inr response, w2)
            | Inl err \<Rightarrow>
                if throttling err
                then retryLoop wait en cmd maxRetries (attempt + 1) (Some err) w2
                else (Inl (Thrown err), w2))
      else (Inl (case lastError of None \<Rightarrow> ThrownUndefined | Some e \<Rightarrow> Thrown e), w))"
  by pat_completeness auto
termination
  by (relation "measure (\<lambda>(wait, en, cmd, maxRetries, attempt, lastError, w).
        nat (maxRetries + 1 - int attempt))") auto

definition callBedrockWithRetry ::
  "env \<Rightarrow> command \<Rightarrow> int \<Rightarrow> world \<Rightarrow> (thrown + agent_response) \<times> world"
where
  "callBedrockWithRetry en cmd maxRetries w = retryLoop backoff en cmd maxRetries 0 None w"

definition callBedrockWithRetry_simple ::
  "env \<Rightarrow> command \<Rightarrow> int \<Rightarrow> world \<Rightarrow> (thrown + agent_response) \<times> world"
where
  "callBedrockWithRetry_simple en cmd maxRetries w =
     retryLoop backoff_simple en cmd maxRetries 0 None w"

text \<open>
  The events of attempt \<open>n\<close> when the wait before it lasts \<open>delay n\<close>: the first attempt
  is the call alone, a later one the wait and then the call.
\<close>

definition attemptEvents :: "(nat \<Rightarrow> real) \<Rightarrow> command \<Rightarrow> nat \<Rightarrow> event list" where
  "attemptEvents delay cmd n = (if n = 0 then [Sent cmd] else [Slept (delay n), Sent cmd])"

subsection \<open>The request handler\<close>

text \<open>
  Reading a property of the parsed body while destructuring it: an object gives the
  value of the key (the last one when the text repeats the key), \<open>None\<close> standing for
  \<open>undefined\<close>; a number, a boolean, a text and an array have neither of the two
  properties the handler reads.
\<close>

fun property :: "json \<Rightarrow> string \<Rightarrow> json option" where
  "property (JObj kvs) k = map_of (rev kvs) k"
| "property v k = None"

fun truthy :: "json option \<Rightarrow> bool" where
  "truthy None = False"
| "truthy (Some JNull) = False"
| "truthy (Some (JBool b)) = b"
| "truthy (Some (JNum x)) = (x \<noteq> 0)"
| "truthy (Some (JStr s)) = (s \<noteq> [])"
| "truthy (Some (JArr xs)) = True"
| "truthy (Some (JObj kvs)) = True"

text \<open>\<open>typeof v === 'string'\<close>, and the text of a value that is one.\<close>

fun isString :: "json option \<Rightarrow> bool" where
  "isString (Some (JStr s)) = True"
| "isString v = False"

fun textOf :: "json option \<Rightarrow> string" where
  "textOf (Some (JStr s)) = s"
| "textOf v = []"

text \<open>Lines 78 to 81.\<close>

definition effectiveSessionId :: "env \<Rightarrow> json option \<Rightarrow> world \<Rightarrow> string \<times> world" where
  "effectiveSessionId en sid w =
     (if isString sid \<and> length (trim (textOf sid)) > 0
      then (textOf sid, w)
      else (randomUUID en (uuids w), w\<lparr>uuids := uuids w + 1\<rparr>))"

text \<open>Lines 97 to 110: the reply read off the response.\<close>

definition appendChunk :: "env \<Rightarrow> string \<Rightarrow> stream_event \<Rightarrow> string" where
  "appendChunk en reply ev =
     (case ev of
        Chunk (Some bytes) \<Rightarrow> reply @ textDecode en bytes
      | Chunk None \<Rightarrow> reply
      | NoChunk \<Rightarrow> reply)"

definition orFallback :: "string \<Rightarrow> string" where
  "orFallback reply =
     (if trim reply = [] then ''Sorry, I could not get a response from the Finance Agent.''
      else reply)"

definition readReply :: "env \<Rightarrow> agent_response \<Rightarrow> thrown + string" where
  "readReply en response =
     (case completion response of
        None \<Rightarrow> Inr (orFallback [])
      | Some (events, failure) \<Rightarrow>
          (case failure of
             Some err \<Rightarrow> Inl (Thrown err)
           | None \<Rightarrow> Inr (orFallback (foldl (appendChunk en) [] events))))"

text \<open>
  The byte payloads of a stream in arrival order, as the specification words the reply:
  an event without a byte payload contributes nothing.
\<close>

fun payloads :: "stream_event list \<Rightarrow> byte list list" where
  "payloads [] = []"
| "payloads (Chunk (Some bytes) # evs) = bytes # payloads evs"
| "payloads (ev # evs) = payloads evs"

text \<open>Lines 87 to 92: the command of the agent call.\<close>

definition InvokeAgentCommand :: "env \<Rightarrow> string \<Rightarrow> string \<Rightarrow> command" where
  "InvokeAgentCommand en sid question =
     \<lparr>agentId = AGENT_ID en, agentAliasId = AGENT_ALIAS_ID en,
      sessionId = sid, inputText = question\<rparr>"

text \<open>
  Lines 85 to 110, the part of \<open>POST\<close> that the specification calls the Agent Gateway:
  the cadence limiter, the command, the call under the retry policy, the reply. The call
  leaves \<open>maxRetries\<close> to its default, 2.
\<close>

definition askAgent :: "env \<Rightarrow> string \<Rightarrow> string \<Rightarrow> world \<Rightarrow> (thrown + string) \<times> world" where
  "askAgent en sid question w =
     (let w1 = enforceCadence en sid w;
          cmd = InvokeAgentCommand en sid question
      in case callBedrockWithRetry en cmd 2 w1 of
           (Inl err, w2) \<Rightarrow> (Inl err, w2)
         | (Inr response, w2) \<Rightarrow> (readReply en response, w2))"

text \<open>Lines 188 to 211, the same part of the second \<open>POST\<close>.\<close>

definition askAgent_simple :: "env \<Rightarrow> string \<Rightarrow> string \<Rightarrow> world \<Rightarrow> (thrown + string) \<times> world" where
  "askAgent_simple en sid question w =
     (let cmd = InvokeAgentCommand en sid question
      in case callBedrockWithRetry_simple en cmd 2 w of
           (Inl err, w2) \<Rightarrow> (Inl err, w2)
         | (Inr response, w2) \<Rightarrow> (readReply en response, w2))"

text \<open>The \<open>catch\<close> block of lines 116 to 127.\<close>

definition caught :: "thrown \<Rightarrow> http_response" where
  "caught err =
     \<lparr>status = 500,
      body = JObj [(''error'', JStr
        (case err of
           Thrown e \<Rightarrow>
             if message e \<noteq> [] then message e
             else ''Failed to contact the Finance Agent due to rate limiting or another error.''
         | ThrownUndefined \<Rightarrow>
             ''Failed to contact the Finance Agent due to rate limiting or another error.''))]\<rparr>"

definition missingQuestion :: http_response where
  \<open>missingQuestion =
     \<lparr>status = 400, body = JObj [(''error'', JStr ''Missing "question" in request body'')]\<rparr>\<close>

text \<open>
  \<open>POST\<close> (lines 66 to 128). The request is what \<open>await req.json()\<close> gives: the parsed
  body, or the error it throws.
\<close>

definition POST :: "env \<Rightarrow> js_error + json \<Rightarrow> world \<Rightarrow> http_response \<times> world" where
  "POST en req w =
     (case req of
        Inl err \<Rightarrow> (caught (Thrown err), w)
      | Inr JNull \<Rightarrow> (caught (Thrown (destructureNull en)), w)
      | Inr parsed \<Rightarrow>
          (let question = property parsed ''question'';
               sid = property parsed ''sessionId''
           in if \<not> truthy question \<or> \<not> isString question then (missingQuestion, w)
              else
                (case effectiveSessionId en sid w of
                   (effective, w0) \<Rightarrow>
                     (case askAgent en effective (textOf question) w0 of
                        (Inl err, w2) \<Rightarrow> (caught err, w2)
                      | (Inr reply, w2) \<Rightarrow>
                          (\<lparr>status = 200,
                            body = JObj [(''reply'', JStr reply),
                                         (''sessionId'', JStr effective)]\<rparr>, w2)))))"

text \<open>The second \<open>POST\<close> of the repository (lines 169 to 229).\<close>

definition POST_simple :: "env \<Rightarrow> js_error + json \<Rightarrow> world \<Rightarrow> http_response \<times> world" where
  "POST_simple en req w =
     (case req of
        Inl err \<Rightarrow> (caught (Thrown err), w)
      | Inr JNull \<Rightarrow> (caught (Thrown (destructureNull en)), w)
      | Inr parsed \<Rightarrow>
          (let question = property parsed ''question'';
               sid = property parsed ''sessionId''
           in if \<not> truthy question \<or> \<not> isString question then (missingQuestion, w)
              else
                (case effectiveSessionId en sid w of
                   (effective, w0) \<Rightarrow>
                     (case askAgent_simple en effective (textOf question) w0 of
                        (Inl err, w2) \<Rightarrow> (caught err, w2)
                      | (Inr reply, w2) \<Rightarrow>
                          (\<lparr>status = 200,
                            body = JObj [(''reply'', JStr reply),
                                         (''sessionId'', JStr effective)]\<rparr>, w2)))))"

section \<open>Concrete inputs\<close>

text \<open>
  A ticker with the given symbol and quote volume; an environment whose agent always
  throttles, whose timers fire 3 ms late and whose decoder reads each byte as one code
  unit; a process that has made no call yet.
\<close>

definition tk :: "string \<Rightarrow> real option \<Rightarrow> ticker" where
  "tk s v = \<lparr>symbol = s, quoteVolume = v, lastPrice = 1, priceChangePercent = 0, volume = 2\<rparr>"

definition env0 :: env where
  "env0 = \<lparr>BEDROCK_AGENT_ID = None, BEDROCK_AGENT_ALIAS_ID = None,
           bedrockSend = (\<lambda>i c. Inl \<lparr>name = ''ThrottlingException'', message = ''slow down''\<rparr>),
           mathRandom = (\<lambda>i. 1 / 2),
           randomUUID = (\<lambda>i. ''generated-id''),
           timerLateness = (\<lambda>i. 3),
           textDecode = map (\<lambda>b. char_of (unat b)),
           destructureNull = \<lparr>name = ''TypeError'', message = ''null body''\<rparr>\<rparr>"

definition world0 :: world where
  "world0 = \<lparr>clock = 1000000, lastCallPerSession = Map.empty, lastGlobalCall = 0,
             sends = 0, draws = 0, uuids = 0, timers = 0, trace = []\<rparr>"

text \<open>
  A command, an answer with the two chunks \<open>He\<close> and \<open>llo\<close>, an agent that throttles
  \<open>k\<close> times and then answers, and an agent that refuses.
\<close>

definition cmd0 :: command where
  "cmd0 = \<lparr>agentId = ''HYEOBH27GN'', agentAliasId = ''HKYBMPQHTH'',
            sessionId = ''abc'', inputText = ''hi''\<rparr>"

definition hello :: agent_response where
  "hello = \<lparr>completion = Some ([Chunk (Some [72, 101]), NoChunk, Chunk None,
                                  Chunk (Some [108, 108, 111])], None)\<rparr>"

definition env_after :: "nat \<Rightarrow> agent_response \<Rightarrow> env" where
  "env_after k r =
     env0\<lparr>bedrockSend := (\<lambda>i c. if i < k
        then Inl \<lparr>name = ''ThrottlingException'', message = ''slow down''\<rparr> else Inr r)\<rparr>"

definition env_denied :: env where
  "env_denied =
     env0\<lparr>bedrockSend := (\<lambda>i c. Inl \<lparr>name = ''AccessDeniedException'', message = ''denied''\<rparr>)\<rparr>"

text \<open>An agent whose failure carries no message, and two request bodies.\<close>

definition env_silent :: env where
  "env_silent = env0\<lparr>bedrockSend := (\<lambda>i c. Inl \<lparr>name = ''Error'', message = []\<rparr>)\<rparr>"

definition ask_hi :: "string \<Rightarrow> json" where
  "ask_hi sid = JObj [(''question'', JStr ''hi''), (''sessionId'', JStr sid)]"

definition ask_nothing :: json where
  "ask_nothing = JObj [(''question'', JStr [])]"

section \<open>Facts about the string methods\<close>

lemma startsWith_prefix: "startsWith s t \<longleftrightarrow> prefix t s"
  by (induction s t rule: startsWith.induct) auto

lemma endsWith_suffix: "endsWith s t \<longleftrightarrow> suffix t s"
  by (simp add: endsWith_def startsWith_prefix suffix_to_prefix)

lemma includes_text_sublist: "includes_text s t \<longleftrightarrow> sublist t s"
proof (induction s)
  case Nil
  then show ?case by auto
next
  case (Cons x xs)
  then show ?case
    by (cases t) (auto simp: startsWith_prefix sublist_Cons_right)
qed

section \<open>The top-crypto route: ranking\<close>

lemma set_insert_by: "set (insert_by cmp x ys) = insert x (set ys)"
  by (induction ys) auto

lemma set_sort_by: "set (sort_by cmp xs) = set xs"
  by (induction xs) (auto simp: sort_by_def set_insert_by)

lemma length_insert_by: "length (insert_by cmp x ys) = Suc (length ys)"
  by (induction ys) auto

lemma length_sort_by: "length (sort_by cmp xs) = length xs"
  by (induction xs) (auto simp: sort_by_def length_insert_by)

lemma sorted_insert_by:
  "sorted_wrt (\<lambda>a b. quoteVolumeNumber b \<le> quoteVolumeNumber a) ys \<Longrightarrow>
   sorted_wrt (\<lambda>a b. quoteVolumeNumber b \<le> quoteVolumeNumber a) (insert_by byQuoteVolume x ys)"
proof (induction ys)
  case Nil
  then show ?case by simp
next
  case (Cons y ys)
  show ?case
  proof (cases "byQuoteVolume x y \<le> 0")
    case True
    then have "quoteVolumeNumber y \<le> quoteVolumeNumber x"
      by (simp add: byQuoteVolume_def)
    with Cons.prems True show ?thesis by fastforce
  next
    case False
    then have "quoteVolumeNumber x \<le> quoteVolumeNumber y"
      by (simp add: byQuoteVolume_def)
    with Cons False show ?thesis
      by (auto simp: set_insert_by)
  qed
qed

lemma sorted_sort_by:
  "sorted_wrt (\<lambda>a b. quoteVolumeNumber b \<le> quoteVolumeNumber a) (sort_by byQuoteVolume xs)"
proof (induction xs)
  case Nil
  then show ?case by (simp add: sort_by_def)
next
  case (Cons x xs)
  then show ?case
    using sorted_insert_by [of "sort_by byQuoteVolume xs" x] by (simp add: sort_by_def)
qed

lemma sorted_wrt_take: "sorted_wrt R xs \<Longrightarrow> sorted_wrt R (take n xs)"
  by (induction xs arbitrary: n) (auto simp: take_Cons' dest: in_set_takeD)

text \<open>
  C10. On a successful upstream fetch the handler answers 200 with the \<open>coins\<close> list. The
  list holds at most 25 entries. Each entry is the object made of one upstream ticker,
  and its \<open>symbol\<close> field ends with USDT and contains none of UP, DOWN, BULL and BEAR.
  The tickers the entries are made of come from the upstream data, and their quote
  volumes never increase from one entry to the next.
\<close>

theorem top_crypto_coins:
  "\<exists>src coins.
     GET (Tickers data) = \<lparr>status = 200, body = JObj [(''coins'', JArr coins)]\<rparr>
     \<and> coins = map (\<lambda>d. JObj [(''symbol'', JStr (symbol d)),
                              (''lastPrice'', JNum (lastPrice d)),
                              (''priceChangePercent'', JNum (priceChangePercent d)),
                              (''volume'', JNum (volume d))]) src
     \<and> length coins \<le> 25
     \<and> (\<forall>e \<in> set coins. \<exists>s. property e ''symbol'' = Some (JStr s)
          \<and> endsWith s ''USDT'' \<and> \<not> includes_text s ''UP'' \<and> \<not> includes_text s ''DOWN''
          \<and> \<not> includes_text s ''BULL'' \<and> \<not> includes_text s ''BEAR'')
     \<and> set src \<subseteq> set data
     \<and> sorted_wrt (\<lambda>a b. quoteVolumeNumber b \<le> quoteVolumeNumber a) src"
proof -
  let ?src = "take 25 (usdtPairs data)"
  let ?entry = "\<lambda>d. JObj [(''symbol'', JStr (symbol d)),
                              (''lastPrice'', JNum (lastPrice d)),
                              (''priceChangePercent'', JNum (priceChangePercent d)),
                              (''volume'', JNum (volume d))]"
  have sub: "set ?src \<subseteq> set (filter usdtPair data)"
    using set_take_subset [of 25 "usdtPairs data"] by (simp add: usdtPairs_def set_sort_by)
  have "GET (Tickers data) = \<lparr>status = 200, body = JObj [(''coins'', JArr (map ?entry ?src))]\<rparr>"
    by (simp add: GET_def top25_def coin_def [abs_def])
  moreover have "length (map ?entry ?src) \<le> 25" by simp
  moreover have "set ?src \<subseteq> set data" using sub by auto
  moreover have "\<forall>e \<in> set (map ?entry ?src). \<exists>s. property e ''symbol'' = Some (JStr s)
          \<and> endsWith s ''USDT'' \<and> \<not> includes_text s ''UP'' \<and> \<not> includes_text s ''DOWN''
          \<and> \<not> includes_text s ''BULL'' \<and> \<not> includes_text s ''BEAR''"
  proof
    fix e assume "e \<in> set (map ?entry ?src)"
    then obtain d where d: "d \<in> set ?src" "e = ?entry d" by auto
    with sub have "usdtPair d" by auto
    then have "endsWith (symbol d) ''USDT'' \<and> \<not> includes_text (symbol d) ''UP''
      \<and> \<not> includes_text (symbol d) ''DOWN'' \<and> \<not> includes_text (symbol d) ''BULL''
      \<and> \<not> includes_text (symbol d) ''BEAR''"
      by (simp add: usdtPair_def Let_def)
    moreover have "property e ''symbol'' = Some (JStr (symbol d))"
      by (simp add: d(2))
    ultimately show "\<exists>s. property e ''symbol'' = Some (JStr s)
          \<and> endsWith s ''USDT'' \<and> \<not> includes_text s ''UP'' \<and> \<not> includes_text s ''DOWN''
          \<and> \<not> includes_text s ''BULL'' \<and> \<not> includes_text s ''BEAR''"
      by blast
  qed
  moreover have "sorted_wrt (\<lambda>a b. quoteVolumeNumber b \<le> quoteVolumeNumber a) ?src"
    unfolding usdtPairs_def by (rule sorted_wrt_take) (rule sorted_sort_by)
  ultimately show ?thesis by blast
qed

theorem top_crypto_coins_witness:
  "GET (Tickers [tk ''BTCUSDT'' (Some 5), tk ''ETHUPUSDT'' (Some 9), tk ''ETHUSDT'' (Some 7),
                 tk ''BTCEUR'' (Some 100), tk ''DOGEUSDT'' None])
   = \<lparr>status = 200, body = JObj [(''coins'',
        JArr [JObj [(''symbol'', JStr ''ETHUSDT''), (''lastPrice'', JNum 1),
                    (''priceChangePercent'', JNum 0), (''volume'', JNum 2)],
              JObj [(''symbol'', JStr ''BTCUSDT''), (''lastPrice'', JNum 1),
                    (''priceChangePercent'', JNum 0), (''volume'', JNum 2)],
              JObj [(''symbol'', JStr ''DOGEUSDT''), (''lastPrice'', JNum 1),
                    (''priceChangePercent'', JNum 0), (''volume'', JNum 2)]])]\<rparr>"
  using top_crypto_coins [of "[tk ''BTCUSDT'' (Some 5), tk ''ETHUPUSDT'' (Some 9),
                 tk ''ETHUSDT'' (Some 7), tk ''BTCEUR'' (Some 100), tk ''DOGEUSDT'' None]"]
  by (simp add: GET_def top25_def usdtPairs_def sort_by_def usdtPair_def endsWith_def
      byQuoteVolume_def quoteVolumeNumber_def tk_def coin_def)

section \<open>The cadence limiter: spacing of the permitted calls\<close>

lemma or_zero_Some [simp]: "or_zero (Some t) = t"
  by (simp add: or_zero_def)

lemma or_zero_None [simp]: "or_zero None = 0"
  by (simp add: or_zero_def)

lemma clock_sleep: "clock (sleep en ms w) = clock w + \<lceil>ms\<rceil> + int (timerLateness en (timers w))"
  by (simp add: sleep_def)

lemma pacing_sleep:
  "lastCallPerSession (sleep en ms w) = lastCallPerSession w"
  "lastGlobalCall (sleep en ms w) = lastGlobalCall w"
  by (simp_all add: sleep_def)

lemma enforceCadence_records:
  "lastGlobalCall (enforceCadence en sid w) = clock (enforceCadence en sid w)"
  "lastCallPerSession (enforceCadence en sid w) sid = Some (clock (enforceCadence en sid w))"
  by (simp_all add: enforceCadence_def Let_def)

lemma enforceCadence_other:
  "sid' \<noteq> sid \<Longrightarrow> lastCallPerSession (enforceCadence en sid w) sid' = lastCallPerSession w sid'"
  by (simp add: enforceCadence_def Let_def pacing_sleep)

lemma clock_enforceCadence:
  "clock w + waitFor w sid \<le> clock (enforceCadence en sid w)"
  by (auto simp: enforceCadence_def Let_def clock_sleep)

lemma enforceCadence_global:
  "lastGlobalCall w + 800 \<le> lastGlobalCall (enforceCadence en sid w)"
proof -
  have "globalLag w \<le> waitFor w sid" by (simp add: waitFor_def)
  then have "lastGlobalCall w + 800 \<le> clock w + waitFor w sid"
    by (simp add: globalLag_def GLOBAL_DELAY_def)
  also have "\<dots> \<le> clock (enforceCadence en sid w)" by (rule clock_enforceCadence)
  finally show ?thesis by (simp add: enforceCadence_records)
qed

lemma enforceCadence_session:
  "or_zero (lastCallPerSession w sid) + 2000
     \<le> or_zero (lastCallPerSession (enforceCadence en sid w) sid)"
proof -
  have "sessionLag w sid \<le> waitFor w sid" by (simp add: waitFor_def)
  then have "or_zero (lastCallPerSession w sid) + 2000 \<le> clock w + waitFor w sid"
    by (simp add: sessionLag_def SESSION_DELAY_def)
  also have "\<dots> \<le> clock (enforceCadence en sid w)" by (rule clock_enforceCadence)
  finally show ?thesis by (simp add: enforceCadence_records)
qed

lemma permitted_global:
  "successively (\<lambda>a b. snd (snd a) + 800 \<le> snd (snd b))
     ((s0, t0, lastGlobalCall w) # permitted en steps w)"
proof (induction steps arbitrary: w s0 t0)
  case Nil
  show ?case by simp
next
  case (Cons st steps)
  show ?case
  proof (cases st)
    case (Tick d)
    with Cons [of s0 t0 "w\<lparr>clock := clock w + int d\<rparr>"] show ?thesis by simp
  next
    case (Acquire sid)
    with Cons [of sid "or_zero (lastCallPerSession (enforceCadence en sid w) sid)" "enforceCadence en sid w"]
      enforceCadence_global [of w en sid]
    show ?thesis by simp
  qed
qed

lemma permitted_session:
  "successively (\<lambda>a b. fst (snd a) + 2000 \<le> fst (snd b))
     ((sid, or_zero (lastCallPerSession w sid), g0)
        # filter (\<lambda>e. fst e = sid) (permitted en steps w))"
proof (induction steps arbitrary: w g0)
  case Nil
  show ?case by simp
next
  case (Cons st steps)
  show ?case
  proof (cases st)
    case (Tick d)
    with Cons [of "w\<lparr>clock := clock w + int d\<rparr>" g0] show ?thesis by simp
  next
    case (Acquire sid')
    show ?thesis
    proof (cases "sid' = sid")
      case True
      with Acquire Cons [of "enforceCadence en sid w" "lastGlobalCall (enforceCadence en sid w)"]
        enforceCadence_session [of w sid en]
      show ?thesis by simp
    next
      case False
      with Acquire Cons [of "enforceCadence en sid' w" g0] enforceCadence_other [of sid sid' en w]
      show ?thesis by simp
    qed
  qed
qed

lemma successively_tail: "successively P (x # xs) \<Longrightarrow> successively P xs"
  by (auto simp: successively_Cons)

lemma trace_enforceCadence:
  "trace (enforceCadence en sid w) =
     trace w @ (if 0 < waitFor w sid then [Slept (real_of_int (waitFor w sid))] else [])
       @ [Recorded sid (clock (enforceCadence en sid w))]"
  by (simp add: enforceCadence_def Let_def sleep_def)

text \<open>The calls that \<open>permitted\<close> lists are the time stamps the run writes, in order.\<close>

lemma permitted_recorded:
  "filter (\<lambda>e. case e of Recorded s t \<Rightarrow> True | _ \<Rightarrow> False) (trace (run en steps w))
     = filter (\<lambda>e. case e of Recorded s t \<Rightarrow> True | _ \<Rightarrow> False) (trace w)
         @ map (\<lambda>(s, t, g). Recorded s t) (permitted en steps w)"
proof (induction steps arbitrary: w)
  case Nil
  show ?case by simp
next
  case (Cons st steps)
  show ?case
  proof (cases st)
    case (Tick d)
    with Cons [of "w\<lparr>clock := clock w + int d\<rparr>"] show ?thesis by simp
  next
    case (Acquire sid)
    with Cons [of "enforceCadence en sid w"] show ?thesis
      by (simp add: trace_enforceCadence enforceCadence_records)
  qed
qed

text \<open>
  C1. The wait that \<open>enforceCadence\<close> computes is the greatest of the session's lag,
  the global lag and 0, with a missing session entry read as 0, and the limiter sleeps
  for exactly that wait when it is positive before it records the time stamp. In every
  serialized run, from any state of the process, two consecutive permitted calls are
  recorded at least 800 ms apart in the global time stamp, and two consecutive permitted
  calls of one session at least 2000 ms apart in the session's time stamp.
\<close>

theorem cadence_limiter_spacing:
  "waitFor w sid =
     max (max ((case lastCallPerSession w sid of None \<Rightarrow> 0 | Some t \<Rightarrow> t) + 2000 - clock w)
              (lastGlobalCall w + 800 - clock w)) 0
   \<and> trace (enforceCadence en sid w) =
       trace w @ (if 0 < waitFor w sid then [Slept (real_of_int (waitFor w sid))] else [])
         @ [Recorded sid (clock (enforceCadence en sid w))]
   \<and> successively (\<lambda>a b. snd (snd a) + 800 \<le> snd (snd b)) (permitted en steps w)
   \<and> successively (\<lambda>a b. fst (snd a) + 2000 \<le> fst (snd b))
       (filter (\<lambda>e. fst e = sid) (permitted en steps w))"
proof -
  have "waitFor w sid =
     max (max ((case lastCallPerSession w sid of None \<Rightarrow> 0 | Some t \<Rightarrow> t) + 2000 - clock w)
              (lastGlobalCall w + 800 - clock w)) 0"
    by (simp add: waitFor_def sessionLag_def globalLag_def SESSION_DELAY_def GLOBAL_DELAY_def
        or_zero_def split: option.split)
  moreover note trace_enforceCadence [of en sid w]
  moreover have "successively (\<lambda>a b. snd (snd a) + 800 \<le> snd (snd b)) (permitted en steps w)"
    using permitted_global [of "[]" 0 w en steps] by (rule successively_tail)
  moreover have "successively (\<lambda>a b. fst (snd a) + 2000 \<le> fst (snd b))
       (filter (\<lambda>e. fst e = sid) (permitted en steps w))"
    using permitted_session [of sid w 0 en steps] by (rule successively_tail)
  ultimately show ?thesis by blast
qed

theorem cadence_limiter_spacing_witness:
  "permitted env0 [Acquire ''a'', Tick 100, Acquire ''b'', Tick 50, Acquire ''a''] world0
     = [(''a'', 1000000, 1000000), (''b'', 1000803, 1000803), (''a'', 1002003, 1002003)]
   \<and> successively (\<lambda>a b. snd (snd a) + 800 \<le> snd (snd b))
       (permitted env0 [Acquire ''a'', Tick 100, Acquire ''b'', Tick 50, Acquire ''a''] world0)
   \<and> successively (\<lambda>a b. fst (snd a) + 2000 \<le> fst (snd b))
       (filter (\<lambda>e. fst e = ''a'')
          (permitted env0 [Acquire ''a'', Tick 100, Acquire ''b'', Tick 50, Acquire ''a''] world0))"
proof -
  have run: "permitted env0 [Acquire ''a'', Tick 100, Acquire ''b'', Tick 50, Acquire ''a''] world0
     = [(''a'', 1000000, 1000000), (''b'', 1000803, 1000803), (''a'', 1002003, 1002003)]"
    by (simp add: enforceCadence_def waitFor_def sessionLag_def globalLag_def SESSION_DELAY_def
        GLOBAL_DELAY_def sleep_def env0_def world0_def Let_def)
  from cadence_limiter_spacing
    [of world0 "''a''" env0 "[Acquire ''a'', Tick 100, Acquire ''b'', Tick 50, Acquire ''a'']"]
  show ?thesis using run by simp
qed

section \<open>The retry policy: one attempt after the other\<close>

declare retryLoop.simps [simp del]

lemma sends_sleep: "sends (sleep en ms w) = sends w"
  by (simp add: sleep_def)

lemma sends_backoff: "sends (backoff en a w) = sends w"
  by (simp add: backoff_def Let_def sends_sleep)

lemma sends_backoff_simple: "sends (backoff_simple en a w) = sends w"
  by (simp add: backoff_simple_def Let_def sends_sleep)

lemma retryLoop_done:
  "\<not> int a \<le> m \<Longrightarrow>
   retryLoop wt en cmd m a le w
     = (Inl (case le of None \<Rightarrow> ThrownUndefined | Some e \<Rightarrow> Thrown e), w)"
  by (subst retryLoop.simps) simp

lemma retryLoop_success:
  "int a \<le> m \<Longrightarrow> bedrockSend en (sends (wt en a w)) cmd = Inr r \<Longrightarrow>
   retryLoop wt en cmd m a le w = (Inr r, snd (invoke en cmd (wt en a w)))"
  by (subst retryLoop.simps) (simp add: invoke_def)

lemma retryLoop_fatal:
  "int a \<le> m \<Longrightarrow> bedrockSend en (sends (wt en a w)) cmd = Inl e \<Longrightarrow> \<not> throttling e \<Longrightarrow>
   retryLoop wt en cmd m a le w = (Inl (Thrown e), snd (invoke en cmd (wt en a w)))"
  by (subst retryLoop.simps) (simp add: invoke_def)

lemma retryLoop_retry:
  "int a \<le> m \<Longrightarrow> bedrockSend en (sends (wt en a w)) cmd = Inl e \<Longrightarrow> throttling e \<Longrightarrow>
   retryLoop wt en cmd m a le w
     = retryLoop wt en cmd m (a + 1) (Some e) (snd (invoke en cmd (wt en a w)))"
  by (subst retryLoop.simps) (simp add: invoke_def)

lemma sends_invoke: "sends (snd (invoke en cmd w)) = sends w + 1"
  by (simp add: invoke_def)

lemma trace_invoke: "trace (snd (invoke en cmd w)) = trace w @ [Sent cmd]"
  by (simp add: invoke_def)

lemma draws_invoke: "draws (snd (invoke en cmd w)) = draws w"
  by (simp add: invoke_def)

lemma retryLoop_cases:
  assumes "int a \<le> m"
  obtains
    (success) r where "bedrockSend en (sends (wt en a w)) cmd = Inr r"
      "retryLoop wt en cmd m a le w = (Inr r, snd (invoke en cmd (wt en a w)))"
  | (fatal) e where "bedrockSend en (sends (wt en a w)) cmd = Inl e" "\<not> throttling e"
      "retryLoop wt en cmd m a le w = (Inl (Thrown e), snd (invoke en cmd (wt en a w)))"
  | (retry) e where "bedrockSend en (sends (wt en a w)) cmd = Inl e" "throttling e"
      "retryLoop wt en cmd m a le w
         = retryLoop wt en cmd m (a + 1) (Some e) (snd (invoke en cmd (wt en a w)))"
proof (cases "bedrockSend en (sends (wt en a w)) cmd")
  case (Inr r)
  with assms success retryLoop_success show ?thesis by blast
next
  case (Inl e)
  show ?thesis
  proof (cases "throttling e")
    case True
    with assms Inl retry retryLoop_retry show ?thesis by blast
  next
    case False
    with assms Inl fatal retryLoop_fatal show ?thesis by blast
  qed
qed

lemma sends_retryLoop:
  assumes q: "\<And>a w. sends (wt en a w) = sends w"
  shows "sends w + (if int a \<le> m then 1 else 0) \<le> sends (snd (retryLoop wt en cmd m a le w))"
proof (induction "nat (m + 1 - int a)" arbitrary: a le w)
  case 0
  then have "\<not> int a \<le> m" by simp
  then show ?case by (simp add: retryLoop_done)
next
  case (Suc n)
  then have le: "int a \<le> m" by simp
  from le show ?case
  proof (cases rule: retryLoop_cases [where en = en and wt = wt and w = w and cmd = cmd and le = le])
    case (success r)
    then show ?thesis using le by (simp add: sends_invoke q)
  next
    case (fatal e)
    then show ?thesis using le by (simp add: sends_invoke q)
  next
    case (retry e)
    have "n = nat (m + 1 - int (a + 1))" using Suc.hyps(2) by simp
    from Suc.hyps(1) [OF this, where le = "Some e" and w = "snd (invoke en cmd (wt en a w))"]
    show ?thesis using retry le by (simp add: sends_invoke q split: if_splits)
  qed
qed

lemma retry_then_success:
  assumes q: "\<And>a w. sends (wt en a w) = sends w"
  shows "\<forall>i<k. \<exists>e. bedrockSend en (sends w + i) cmd = Inl e \<and> throttling e \<Longrightarrow>
         bedrockSend en (sends w + k) cmd = Inr r \<Longrightarrow> int (a + k) \<le> m \<Longrightarrow>
         fst (retryLoop wt en cmd m a le w) = Inr r
         \<and> sends (snd (retryLoop wt en cmd m a le w)) = sends w + k + 1"
proof (induction k arbitrary: a le w)
  case 0
  then show ?case by (simp add: retryLoop_success q sends_invoke)
next
  case (Suc k)
  from Suc.prems(1) obtain e where e: "bedrockSend en (sends w) cmd = Inl e" "throttling e"
    by force
  let ?w2 = "snd (invoke en cmd (wt en a w))"
  have s2: "sends ?w2 = sends w + 1" by (simp add: sends_invoke q)
  have step: "retryLoop wt en cmd m a le w = retryLoop wt en cmd m (a + 1) (Some e) ?w2"
    using Suc.prems(3) e by (intro retryLoop_retry) (simp_all add: q)
  have "\<forall>i<k. \<exists>e. bedrockSend en (sends ?w2 + i) cmd = Inl e \<and> throttling e"
  proof (intro allI impI)
    fix i assume "i < k"
    then have "Suc i < Suc k" by simp
    with Suc.prems(1) have "\<exists>e. bedrockSend en (sends w + Suc i) cmd = Inl e \<and> throttling e"
      by blast
    then show "\<exists>e. bedrockSend en (sends ?w2 + i) cmd = Inl e \<and> throttling e"
      by (simp add: s2)
  qed
  moreover have "bedrockSend en (sends ?w2 + k) cmd = Inr r"
    using Suc.prems(2) by (simp add: s2)
  moreover have "int (a + 1 + k) \<le> m" using Suc.prems(3) by simp
  ultimately have "fst (retryLoop wt en cmd m (a + 1) (Some e) ?w2) = Inr r
      \<and> sends (snd (retryLoop wt en cmd m (a + 1) (Some e) ?w2)) = sends ?w2 + k + 1"
    by (rule Suc.IH)
  then show ?case by (simp add: step s2)
qed

lemma retry_exhausted:
  assumes q: "\<And>a w. sends (wt en a w) = sends w"
  shows "\<forall>i\<le>n. \<exists>e. bedrockSend en (sends w + i) cmd = Inl e \<and> throttling e \<Longrightarrow>
         bedrockSend en (sends w + n) cmd = Inl e \<Longrightarrow> int (a + n) = m \<Longrightarrow>
         fst (retryLoop wt en cmd m a le w) = Inl (Thrown e)
         \<and> sends (snd (retryLoop wt en cmd m a le w)) = sends w + n + 1"
proof (induction n arbitrary: a le w)
  case 0
  then have e: "bedrockSend en (sends w) cmd = Inl e" "throttling e" by auto
  let ?w2 = "snd (invoke en cmd (wt en a w))"
  have "retryLoop wt en cmd m a le w = retryLoop wt en cmd m (a + 1) (Some e) ?w2"
    using 0(3) e by (intro retryLoop_retry) (simp_all add: q)
  also have "\<dots> = (Inl (Thrown e), ?w2)"
    using 0(3) by (simp add: retryLoop_done)
  finally show ?case by (simp add: sends_invoke q)
next
  case (Suc n)
  from Suc.prems(1) obtain e0 where e0: "bedrockSend en (sends w) cmd = Inl e0" "throttling e0"
    by force
  let ?w2 = "snd (invoke en cmd (wt en a w))"
  have s2: "sends ?w2 = sends w + 1" by (simp add: sends_invoke q)
  have step: "retryLoop wt en cmd m a le w = retryLoop wt en cmd m (a + 1) (Some e0) ?w2"
    using Suc.prems(3) e0 by (intro retryLoop_retry) (simp_all add: q)
  have "\<forall>i\<le>n. \<exists>e. bedrockSend en (sends ?w2 + i) cmd = Inl e \<and> throttling e"
  proof (intro allI impI)
    fix i assume "i \<le> n"
    then have "Suc i \<le> Suc n" by simp
    with Suc.prems(1) have "\<exists>e. bedrockSend en (sends w + Suc i) cmd = Inl e \<and> throttling e"
      by blast
    then show "\<exists>e. bedrockSend en (sends ?w2 + i) cmd = Inl e \<and> throttling e"
      by (simp add: s2)
  qed
  moreover have "bedrockSend en (sends ?w2 + n) cmd = Inl e"
    using Suc.prems(2) by (simp add: s2)
  moreover have "int (a + 1 + n) = m" using Suc.prems(3) by simp
  ultimately have "fst (retryLoop wt en cmd m (a + 1) (Some e0) ?w2) = Inl (Thrown e)
      \<and> sends (snd (retryLoop wt en cmd m (a + 1) (Some e0) ?w2)) = sends ?w2 + n + 1"
    by (rule Suc.IH)
  then show ?case by (simp add: step s2)
qed

lemma trace_retryLoop:
  assumes q: "\<And>a w. sends (wt en a w) = sends w"
    and t: "\<And>a w. ok a w \<Longrightarrow>
              trace (wt en a w) = trace w @ (if a > 0 then [Slept (delay a)] else [])"
    and i: "\<And>a w. ok a w \<Longrightarrow> ok (a + 1) (snd (invoke en cmd (wt en a w)))"
  shows "ok a w \<Longrightarrow>
         trace (snd (retryLoop wt en cmd m a le w))
           = trace w @ concat (map (attemptEvents delay cmd)
               [a ..< a + (sends (snd (retryLoop wt en cmd m a le w)) - sends w)])"
proof (induction "nat (m + 1 - int a)" arbitrary: a le w)
  case 0
  then have "\<not> int a \<le> m" by simp
  then show ?case by (simp add: retryLoop_done)
next
  case (Suc n)
  then have le: "int a \<le> m" by simp
  let ?w2 = "snd (invoke en cmd (wt en a w))"
  have t2: "trace ?w2 = trace w @ attemptEvents delay cmd a"
    using t [OF Suc.prems] by (simp add: trace_invoke attemptEvents_def)
  have s2: "sends ?w2 = sends w + 1" by (simp add: sends_invoke q)
  from le show ?case
  proof (cases rule: retryLoop_cases [where en = en and wt = wt and w = w and cmd = cmd and le = le])
    case (success r)
    then show ?thesis by (simp add: t2 s2)
  next
    case (fatal e)
    then show ?thesis by (simp add: t2 s2)
  next
    case (retry e)
    let ?res = "retryLoop wt en cmd m (a + 1) (Some e) ?w2"
    have n: "n = nat (m + 1 - int (a + 1))" using Suc.hyps(2) by simp
    have ih: "trace (snd ?res) = trace ?w2 @ concat (map (attemptEvents delay cmd)
               [a + 1 ..< a + 1 + (sends (snd ?res) - sends ?w2)])"
      using Suc.hyps(1) [OF n i [OF Suc.prems]] .
    have mono: "sends ?w2 \<le> sends (snd ?res)"
      using sends_retryLoop [of wt en ?w2 "a + 1" m cmd "Some e", OF q]
      by (simp split: if_splits)
    then have "a + (sends (snd ?res) - sends w) = Suc (a + (sends (snd ?res) - sends ?w2))"
      by (simp add: s2)
    then have "[a ..< a + (sends (snd ?res) - sends w)]
        = a # [a + 1 ..< a + 1 + (sends (snd ?res) - sends ?w2)]"
      by (simp add: upt_conv_Cons)
    then show ?thesis using ih retry by (simp add: t2)
  qed
qed

section \<open>The retry policy: attempts, classification and waits\<close>

lemma trace_backoff:
  "draws w = d0 + (a - 1) \<Longrightarrow>
   trace (backoff en a w)
     = trace w @ (if a > 0 then [Slept (500 * 2 ^ (a - 1) + mathRandom en (d0 + a - 1) * 250)] else [])"
  by (simp add: backoff_def Let_def sleep_def)

lemma draws_backoff: "draws (backoff en a w) = draws w + (if a > 0 then 1 else 0)"
  by (simp add: backoff_def Let_def sleep_def)

lemma trace_backoff_simple:
  "trace (backoff_simple en a w) = trace w @ (if a > 0 then [Slept (300 * real a)] else [])"
  by (simp add: backoff_simple_def Let_def sleep_def)

lemma trace_callBedrockWithRetry:
  "trace (snd (callBedrockWithRetry en cmd m w))
     = trace w @ concat (map
         (attemptEvents (\<lambda>n. 500 * 2 ^ (n - 1) + mathRandom en (draws w + n - 1) * 250) cmd)
         [0 ..< sends (snd (callBedrockWithRetry en cmd m w)) - sends w])"
proof -
  have "trace (snd (retryLoop backoff en cmd m 0 None w))
     = trace w @ concat (map
         (attemptEvents (\<lambda>n. 500 * 2 ^ (n - 1) + mathRandom en (draws w + n - 1) * 250) cmd)
         [0 ..< 0 + (sends (snd (retryLoop backoff en cmd m 0 None w)) - sends w)])"
  proof (rule trace_retryLoop [where ok = "\<lambda>a v. draws v = draws w + (a - 1)"])
    show "sends (backoff en a v) = sends v" for a v by (rule sends_backoff)
    show "trace (backoff en a v) = trace v @
        (if 0 < a then [Slept (500 * 2 ^ (a - 1) + mathRandom en (draws w + a - 1) * 250)] else [])"
      if "draws v = draws w + (a - 1)" for a v
      using that by (rule trace_backoff)
    show "draws (snd (invoke en cmd (backoff en a v))) = draws w + (a + 1 - 1)"
      if "draws v = draws w + (a - 1)" for a v
      using that by (simp add: draws_invoke draws_backoff)
    show "draws w = draws w + (0 - 1)" by simp
  qed
  then show ?thesis by (simp add: callBedrockWithRetry_def)
qed

lemma trace_callBedrockWithRetry_simple:
  "trace (snd (callBedrockWithRetry_simple en cmd m w))
     = trace w @ concat (map (attemptEvents (\<lambda>n. 300 * real n) cmd)
         [0 ..< sends (snd (callBedrockWithRetry_simple en cmd m w)) - sends w])"
proof -
  have "trace (snd (retryLoop backoff_simple en cmd m 0 None w))
     = trace w @ concat (map (attemptEvents (\<lambda>n. 300 * real n) cmd)
         [0 ..< 0 + (sends (snd (retryLoop backoff_simple en cmd m 0 None w)) - sends w)])"
    by (rule trace_retryLoop [where ok = "\<lambda>a v. True"])
       (simp_all add: sends_backoff_simple trace_backoff_simple)
  then show ?thesis by (simp add: callBedrockWithRetry_simple_def)
qed

text \<open>
  C2. When the operation fails \<open>k\<close> times with a throttling failure, \<open>k\<close> at most
  \<open>maxRetries\<close>, and then succeeds, \<open>callBedrockWithRetry\<close> returns that success after
  exactly \<open>k + 1\<close> invocations. When it fails with a throttling failure on each of its
  first \<open>maxRetries + 1\<close> invocations, it is invoked exactly \<open>maxRetries + 1\<close> times and
  the failure of the last invocation is thrown. The default \<open>maxRetries = 2\<close> is what
  the handler passes.
\<close>

theorem retry_policy_attempts:
  "((\<forall>i<k. \<exists>e. bedrockSend en (sends w + i) cmd = Inl e \<and> throttling e)
      \<and> bedrockSend en (sends w + k) cmd = Inr r \<and> int k \<le> maxRetries
    \<longrightarrow> fst (callBedrockWithRetry en cmd maxRetries w) = Inr r
        \<and> sends (snd (callBedrockWithRetry en cmd maxRetries w)) = sends w + (k + 1))
   \<and> ((\<forall>i\<le>nat maxRetries. \<exists>e. bedrockSend en (sends w + i) cmd = Inl e \<and> throttling e)
      \<and> bedrockSend en (sends w + nat maxRetries) cmd = Inl final \<and> 0 \<le> maxRetries
    \<longrightarrow> fst (callBedrockWithRetry en cmd maxRetries w) = Inl (Thrown final)
        \<and> sends (snd (callBedrockWithRetry en cmd maxRetries w)) = sends w + (nat maxRetries + 1))"
proof (intro conjI impI)
  assume h: "(\<forall>i<k. \<exists>e. bedrockSend en (sends w + i) cmd = Inl e \<and> throttling e)
      \<and> bedrockSend en (sends w + k) cmd = Inr r \<and> int k \<le> maxRetries"
  then have "fst (retryLoop backoff en cmd maxRetries 0 None w) = Inr r
      \<and> sends (snd (retryLoop backoff en cmd maxRetries 0 None w)) = sends w + k + 1"
    by (intro retry_then_success) (simp_all add: sends_backoff)
  then show "fst (callBedrockWithRetry en cmd maxRetries w) = Inr r"
    and "sends (snd (callBedrockWithRetry en cmd maxRetries w)) = sends w + (k + 1)"
    by (simp_all add: callBedrockWithRetry_def)
next
  assume h: "(\<forall>i\<le>nat maxRetries. \<exists>e. bedrockSend en (sends w + i) cmd = Inl e \<and> throttling e)
      \<and> bedrockSend en (sends w + nat maxRetries) cmd = Inl final \<and> 0 \<le> maxRetries"
  then have "fst (retryLoop backoff en cmd maxRetries 0 None w) = Inl (Thrown final)
      \<and> sends (snd (retryLoop backoff en cmd maxRetries 0 None w)) = sends w + nat maxRetries + 1"
    by (intro retry_exhausted) (simp_all add: sends_backoff)
  then show "fst (callBedrockWithRetry en cmd maxRetries w) = Inl (Thrown final)"
    and "sends (snd (callBedrockWithRetry en cmd maxRetries w)) = sends w + (nat maxRetries + 1)"
    by (simp_all add: callBedrockWithRetry_def)
qed

theorem retry_policy_attempts_witness:
  "fst (callBedrockWithRetry (env_after 1 hello) cmd0 2 world0) = Inr hello
   \<and> sends (snd (callBedrockWithRetry (env_after 1 hello) cmd0 2 world0)) = 2
   \<and> fst (callBedrockWithRetry env0 cmd0 2 world0)
       = Inl (Thrown \<lparr>name = ''ThrottlingException'', message = ''slow down''\<rparr>)
   \<and> sends (snd (callBedrockWithRetry env0 cmd0 2 world0)) = 3"
  using retry_policy_attempts [of 1 "env_after 1 hello" world0 cmd0 hello 2
      "\<lparr>name = ''ThrottlingException'', message = ''slow down''\<rparr>"]
    retry_policy_attempts [of 0 env0 world0 cmd0 hello 2
      "\<lparr>name = ''ThrottlingException'', message = ''slow down''\<rparr>"]
  by (simp add: env_after_def env0_def world0_def throttling_def)






text \<open>
  C4, as amended. The events of \<open>callBedrockWithRetry\<close> (lines 39 to 64) are, attempt by
  attempt: the call alone for the first attempt, and for attempt \<open>n \<ge> 1\<close> a wait of
  \<open>500 * 2 ^ (n - 1)\<close> plus a jitter, then the call; the jitter is 250 times a value of
  \<open>Math.random()\<close> and so lies in \<open>[0, 250)\<close>. In the second function of that name
  (lines 143 to 167) the wait before attempt \<open>n \<ge> 1\<close> is \<open>300 * n\<close>, with no jitter.
\<close>

theorem retry_backoff_waits:
  "trace (snd (callBedrockWithRetry en cmd maxRetries w))
     = trace w @ concat (map
         (attemptEvents (\<lambda>n. 500 * 2 ^ (n - 1) + mathRandom en (draws w + n - 1) * 250) cmd)
         [0 ..< sends (snd (callBedrockWithRetry en cmd maxRetries w)) - sends w])
   \<and> ((\<forall>i. 0 \<le> mathRandom en i \<and> mathRandom en i < 1) \<longrightarrow>
        (\<forall>n. 0 \<le> mathRandom en (draws w + n - 1) * 250
             \<and> mathRandom en (draws w + n - 1) * 250 < 250))
   \<and> trace (snd (callBedrockWithRetry_simple en cmd maxRetries w))
     = trace w @ concat (map (attemptEvents (\<lambda>n. 300 * real n) cmd)
         [0 ..< sends (snd (callBedrockWithRetry_simple en cmd maxRetries w)) - sends w])"
  using trace_callBedrockWithRetry [of en cmd maxRetries w]
    trace_callBedrockWithRetry_simple [of en cmd maxRetries w]
  by simp

lemma upt_3: "[0..<3] = [0, 1, 2]"
  by (simp add: upt_rec)

theorem retry_backoff_waits_witness:
  "trace (snd (callBedrockWithRetry env0 cmd0 2 world0))
     = [Sent cmd0, Slept 625, Sent cmd0, Slept 1125, Sent cmd0]
   \<and> 0 \<le> mathRandom env0 0 * 250 \<and> mathRandom env0 0 * 250 < 250
   \<and> trace (snd (callBedrockWithRetry_simple env0 cmd0 2 world0))
     = [Sent cmd0, Slept 300, Sent cmd0, Slept 600, Sent cmd0]"
proof -
  have n: "sends (snd (callBedrockWithRetry env0 cmd0 2 world0)) - sends world0 = 3"
    "sends (snd (callBedrockWithRetry_simple env0 cmd0 2 world0)) - sends world0 = 3"
    by (simp_all add: callBedrockWithRetry_def callBedrockWithRetry_simple_def retryLoop.simps
        backoff_def backoff_simple_def invoke_def sleep_def env0_def world0_def throttling_def Let_def)
  have r: "\<forall>i. 0 \<le> mathRandom env0 i \<and> mathRandom env0 i < 1"
    by (simp add: env0_def)
  from retry_backoff_waits [of env0 cmd0 2 world0] r
  have "trace (snd (callBedrockWithRetry env0 cmd0 2 world0))
     = trace world0 @ concat (map
         (attemptEvents (\<lambda>n. 500 * 2 ^ (n - 1) + mathRandom env0 (draws world0 + n - 1) * 250) cmd0)
         [0 ..< 3])"
    and "0 \<le> mathRandom env0 (draws world0 + 0 - 1) * 250
         \<and> mathRandom env0 (draws world0 + 0 - 1) * 250 < 250"
    and "trace (snd (callBedrockWithRetry_simple env0 cmd0 2 world0))
     = trace world0 @ concat (map (attemptEvents (\<lambda>n. 300 * real n) cmd0) [0 ..< 3])"
    unfolding n by blast+
  then show ?thesis
    by (simp add: upt_3 attemptEvents_def env0_def world0_def)
qed

text \<open>
  C4 as stated fails on lines 143 to 167: against an agent that always throttles, the
  wait before attempt 1 is 300 ms, below the base of 500 ms.
\<close>

theorem retry_backoff_simple_counterexample:
  "trace (snd (callBedrockWithRetry_simple env0 cmd0 2 world0))
     = [Sent cmd0, Slept 300, Sent cmd0, Slept 600, Sent cmd0]
   \<and> (300 :: real) < 500 * 2 ^ (1 - 1)"
  by (simp add: callBedrockWithRetry_simple_def retryLoop.simps backoff_simple_def invoke_def
      sleep_def env0_def world0_def throttling_def Let_def)

section \<open>The agent gateway: the reply\<close>

lemma dropWhile_all: "(\<forall>c\<in>set (dropWhile P s). P c) \<longleftrightarrow> (\<forall>c\<in>set s. P c)"
proof (induction s)
  case Nil
  then show ?case by simp
next
  case (Cons x xs)
  then show ?case by auto
qed

lemma trim_Nil_iff: "trim s = [] \<longleftrightarrow> (\<forall>c\<in>set s. whitespace c)"
  by (simp add: trim_def dropWhile_eq_Nil_conv dropWhile_all)

lemma foldl_appendChunk:
  "foldl (appendChunk en) acc events = acc @ concat (map (textDecode en) (payloads events))"
  by (induction events arbitrary: acc rule: payloads.induct) (simp_all add: appendChunk_def)

text \<open>The reply that lines 97 to 110 read off a response whose stream ends well.\<close>

lemma readReply_ended:
  "completion r = Some (evs, None) \<Longrightarrow>
   readReply en r
     = Inr (if \<forall>c\<in>set (concat (map (textDecode en) (payloads evs))). whitespace c
            then ''Sorry, I could not get a response from the Finance Agent.''
            else concat (map (textDecode en) (payloads evs)))"
  "completion r = None \<Longrightarrow>
   readReply en r = Inr ''Sorry, I could not get a response from the Finance Agent.''"
  by (simp_all add: readReply_def orFallback_def foldl_appendChunk trim_Nil_iff)

lemma textDecode_env0:
  "textDecode env0 [72, 101] = ''He''"
  "textDecode env0 [108, 108, 111] = ''llo''"
  "textDecode env0 [32, 10] = [CHR 0x20, CHR 0x0A]"
  by (simp_all add: env0_def char_of_def bit_0)

section \<open>The request handler: validation, session and responses\<close>

lemma valid_question: "truthy v \<and> isString v \<longleftrightarrow> (\<exists>q. v = Some (JStr q) \<and> q \<noteq> [])"
  by (cases v rule: truthy.cases) auto

lemma POST_nonnull:
  "parsed \<noteq> JNull \<Longrightarrow>
   POST en (Inr parsed) w =
     (if \<not> truthy (property parsed ''question'') \<or> \<not> isString (property parsed ''question'')
      then (missingQuestion, w)
      else
        (case effectiveSessionId en (property parsed ''sessionId'') w of
           (effective, w0) \<Rightarrow>
             (case askAgent en effective (textOf (property parsed ''question'')) w0 of
                (Inl err, w2) \<Rightarrow> (caught err, w2)
              | (Inr reply, w2) \<Rightarrow>
                  (\<lparr>status = 200,
                    body = JObj [(''reply'', JStr reply), (''sessionId'', JStr effective)]\<rparr>, w2))))"
  by (cases parsed) (simp_all add: POST_def Let_def)

lemma POST_simple_nonnull:
  "parsed \<noteq> JNull \<Longrightarrow>
   POST_simple en (Inr parsed) w =
     (if \<not> truthy (property parsed ''question'') \<or> \<not> isString (property parsed ''question'')
      then (missingQuestion, w)
      else
        (case effectiveSessionId en (property parsed ''sessionId'') w of
           (effective, w0) \<Rightarrow>
             (case askAgent_simple en effective (textOf (property parsed ''question'')) w0 of
                (Inl err, w2) \<Rightarrow> (caught err, w2)
              | (Inr reply, w2) \<Rightarrow>
                  (\<lparr>status = 200,
                    body = JObj [(''reply'', JStr reply), (''sessionId'', JStr effective)]\<rparr>, w2))))"
  by (cases parsed) (simp_all add: POST_simple_def Let_def)

lemma POST_missing:
  assumes "parsed \<noteq> JNull" "\<not> (\<exists>q. property parsed ''question'' = Some (JStr q) \<and> q \<noteq> [])"
  shows "POST en (Inr parsed) w = (missingQuestion, w)"
    and "POST_simple en (Inr parsed) w = (missingQuestion, w)"
proof -
  have "\<not> truthy (property parsed ''question'') \<or> \<not> isString (property parsed ''question'')"
    using assms(2) valid_question [of "property parsed ''question''"] by blast
  then show "POST en (Inr parsed) w = (missingQuestion, w)"
    and "POST_simple en (Inr parsed) w = (missingQuestion, w)"
    by (simp_all only: POST_nonnull [OF assms(1)] POST_simple_nonnull [OF assms(1)] if_P)
qed

lemma POST_valid:
  assumes "property parsed ''question'' = Some (JStr q)" "q \<noteq> []"
    and "effectiveSessionId en (property parsed ''sessionId'') w = (sid, w0)"
  shows "POST en (Inr parsed) w =
     (case askAgent en sid q w0 of
        (Inl err, w2) \<Rightarrow> (caught err, w2)
      | (Inr reply, w2) \<Rightarrow>
          (\<lparr>status = 200, body = JObj [(''reply'', JStr reply), (''sessionId'', JStr sid)]\<rparr>, w2))"
proof -
  from assms(1) have "parsed \<noteq> JNull" by auto
  from POST_nonnull [OF this, of en w] assms show ?thesis by simp
qed

lemma POST_simple_valid:
  assumes "property parsed ''question'' = Some (JStr q)" "q \<noteq> []"
    and "effectiveSessionId en (property parsed ''sessionId'') w = (sid, w0)"
  shows "POST_simple en (Inr parsed) w =
     (case askAgent_simple en sid q w0 of
        (Inl err, w2) \<Rightarrow> (caught err, w2)
      | (Inr reply, w2) \<Rightarrow>
          (\<lparr>status = 200, body = JObj [(''reply'', JStr reply), (''sessionId'', JStr sid)]\<rparr>, w2))"
proof -
  from assms(1) have "parsed \<noteq> JNull" by auto
  from POST_simple_nonnull [OF this, of en w] assms show ?thesis by simp
qed

lemma snd_POST_valid:
  assumes "property parsed ''question'' = Some (JStr q)" "q \<noteq> []"
    and "effectiveSessionId en (property parsed ''sessionId'') w = (sid, w0)"
  shows "snd (POST en (Inr parsed) w) = snd (askAgent en sid q w0)"
    and "snd (POST_simple en (Inr parsed) w) = snd (askAgent_simple en sid q w0)"
  by (simp_all add: POST_valid [OF assms] POST_simple_valid [OF assms] split: prod.split sum.split)

lemma effectiveSessionId_fst:
  "fst (effectiveSessionId en v w) =
     (case v of
        Some (JStr s) \<Rightarrow> if \<forall>c\<in>set s. whitespace c then randomUUID en (uuids w) else s
      | _ \<Rightarrow> randomUUID en (uuids w))"
  by (cases v rule: isString.cases) (simp_all add: effectiveSessionId_def trim_Nil_iff)

lemma effectiveSessionId_snd:
  assumes "effectiveSessionId en v w = (sid, w0)"
  shows "trace w0 = trace w" "sends w0 = sends w" "draws w0 = draws w" "clock w0 = clock w"
    "lastGlobalCall w0 = lastGlobalCall w" "lastCallPerSession w0 = lastCallPerSession w"
  using assms by (auto simp: effectiveSessionId_def split: if_splits)

lemma snd_askAgent:
  "snd (askAgent en sid q w)
     = snd (callBedrockWithRetry en (InvokeAgentCommand en sid q) 2 (enforceCadence en sid w))"
  "snd (askAgent_simple en sid q w)
     = snd (callBedrockWithRetry_simple en (InvokeAgentCommand en sid q) 2 w)"
  by (simp_all add: askAgent_def askAgent_simple_def Let_def split: prod.split sum.split)

lemma fst_askAgent:
  "fst (askAgent en sid q w)
     = (case fst (callBedrockWithRetry en (InvokeAgentCommand en sid q) 2 (enforceCadence en sid w)) of
          Inl err \<Rightarrow> Inl err
        | Inr response \<Rightarrow> readReply en response)"
  by (simp add: askAgent_def Let_def split: prod.split sum.split)

lemma retryLoop_undefined:
  "fst (retryLoop wt en cmd m a le w) = Inl ThrownUndefined \<Longrightarrow> le = None \<and> \<not> int a \<le> m"
proof (induction "nat (m + 1 - int a)" arbitrary: a le w)
  case 0
  then have "\<not> int a \<le> m" by simp
  with 0 show ?case by (simp add: retryLoop_done split: option.splits)
next
  case (Suc n)
  then have le: "int a \<le> m" by simp
  from le show ?case
  proof (cases rule: retryLoop_cases [where en = en and wt = wt and w = w and cmd = cmd and le = le])
    case (success r)
    with Suc.prems show ?thesis by simp
  next
    case (fatal e)
    with Suc.prems show ?thesis by simp
  next
    case (retry e)
    have "n = nat (m + 1 - int (a + 1))" using Suc.hyps(2) by simp
    from Suc.hyps(1) [OF this, where le = "Some e" and w = "snd (invoke en cmd (wt en a w))"]
      Suc.prems retry
    show ?thesis by simp
  qed
qed

lemma readReply_defined: "readReply en r \<noteq> Inl ThrownUndefined"
  by (simp add: readReply_def split: option.split prod.split)

lemma askAgent_defined: "fst (askAgent en sid q w) \<noteq> Inl ThrownUndefined"
proof
  assume u: "fst (askAgent en sid q w) = Inl ThrownUndefined"
  show False
  proof (cases "fst (callBedrockWithRetry en (InvokeAgentCommand en sid q) 2 (enforceCadence en sid w))")
    case (Inl err)
    with u have "err = ThrownUndefined" by (simp add: fst_askAgent)
    with Inl retryLoop_undefined
      [of backoff en "InvokeAgentCommand en sid q" 2 0 None "enforceCadence en sid w"]
    show False by (simp add: callBedrockWithRetry_def)
  next
    case (Inr response)
    with u readReply_defined [of en response] show False by (simp add: fst_askAgent)
  qed
qed

lemma sends_enforceCadence: "sends (enforceCadence en sid w) = sends w"
  by (simp add: enforceCadence_def Let_def sleep_def)

lemma draws_enforceCadence: "draws (enforceCadence en sid w) = draws w"
  by (simp add: enforceCadence_def Let_def sleep_def)

lemma attempts_positive:
  "0 \<le> m \<Longrightarrow> sends w < sends (snd (callBedrockWithRetry en cmd m w))"
  "0 \<le> m \<Longrightarrow> sends w < sends (snd (callBedrockWithRetry_simple en cmd m w))"
  using sends_retryLoop [of backoff en w 0 m cmd None, OF sends_backoff]
    sends_retryLoop [of backoff_simple en w 0 m cmd None, OF sends_backoff_simple]
  by (simp_all add: callBedrockWithRetry_def callBedrockWithRetry_simple_def)

lemma attempts_first:
  "0 < n \<Longrightarrow> \<exists>rest. concat (map (attemptEvents delay cmd) [0 ..< n]) = Sent cmd # rest"
  by (cases n) (simp_all add: upt_conv_Cons attemptEvents_def del: upt_Suc)

lemma attempts_events:
  "e \<in> set (concat (map (attemptEvents delay cmd) ns)) \<Longrightarrow> e = Sent cmd \<or> (\<exists>ms. e = Slept ms)"
  by (auto simp: attemptEvents_def split: if_splits)

lemma trace_askAgent:
  "\<exists>post. trace (snd (askAgent en sid q w))
     = trace w @ (if 0 < waitFor w sid then [Slept (real_of_int (waitFor w sid))] else [])
         @ Recorded sid (clock (enforceCadence en sid w)) # Sent (InvokeAgentCommand en sid q) # post
     \<and> (\<forall>e\<in>set post. e = Sent (InvokeAgentCommand en sid q) \<or> (\<exists>ms. e = Slept ms))"
proof -
  let ?cmd = "InvokeAgentCommand en sid q"
  let ?w1 = "enforceCadence en sid w"
  let ?w2 = "snd (callBedrockWithRetry en ?cmd 2 ?w1)"
  let ?delay = "\<lambda>n. 500 * 2 ^ (n - 1) + mathRandom en (draws ?w1 + n - 1) * 250"
  let ?evs = "concat (map (attemptEvents ?delay ?cmd) [0 ..< sends ?w2 - sends ?w1])"
  have "0 < sends ?w2 - sends ?w1" using attempts_positive(1) [of 2 ?w1 en ?cmd] by simp
  then obtain post where post: "?evs = Sent ?cmd # post"
    using attempts_first by blast
  have "\<forall>e\<in>set ?evs. e = Sent ?cmd \<or> (\<exists>ms. e = Slept ms)"
    using attempts_events by blast
  with post have "\<forall>e\<in>set post. e = Sent ?cmd \<or> (\<exists>ms. e = Slept ms)" by simp
  moreover have "trace ?w2 = trace ?w1 @ ?evs" by (rule trace_callBedrockWithRetry)
  ultimately show ?thesis
    using post by (simp add: snd_askAgent trace_enforceCadence)
qed

lemma trace_askAgent_simple:
  "\<exists>post. trace (snd (askAgent_simple en sid q w))
     = trace w @ Sent (InvokeAgentCommand en sid q) # post
     \<and> (\<forall>e\<in>set post. e = Sent (InvokeAgentCommand en sid q) \<or> (\<exists>ms. e = Slept ms))"
proof -
  let ?cmd = "InvokeAgentCommand en sid q"
  let ?w2 = "snd (callBedrockWithRetry_simple en ?cmd 2 w)"
  let ?evs = "concat (map (attemptEvents (\<lambda>n. 300 * real n) ?cmd) [0 ..< sends ?w2 - sends w])"
  have "0 < sends ?w2 - sends w" using attempts_positive(2) [of 2 w en ?cmd] by simp
  then obtain post where post: "?evs = Sent ?cmd # post"
    using attempts_first by blast
  have "\<forall>e\<in>set ?evs. e = Sent ?cmd \<or> (\<exists>ms. e = Slept ms)"
    using attempts_events by blast
  with post have "\<forall>e\<in>set post. e = Sent ?cmd \<or> (\<exists>ms. e = Slept ms)" by simp
  moreover have "trace ?w2 = trace w @ ?evs" by (rule trace_callBedrockWithRetry_simple)
  ultimately show ?thesis
    using post by (simp add: snd_askAgent)
qed

text \<open>
  C5, as amended. For a body that parses to a value other than \<open>null\<close>: unless
  \<open>question\<close> is a text that is not empty, the handler answers 400 with the error
  \<open>Missing "question" in request body\<close> and leaves the process as it was, so the
  limiter is not acquired and no call goes out; when \<open>question\<close> is a text that is not
  empty, validation passes: the limiter is acquired and the answer is a 200 or a 500.
\<close>

theorem question_validation:
  \<open>(parsed \<noteq> JNull \<and> \<not> (\<exists>q. property parsed ''question'' = Some (JStr q) \<and> q \<noteq> []) \<longrightarrow>
      POST en (Inr parsed) w =
        (\<lparr>status = 400, body = JObj [(''error'', JStr ''Missing "question" in request body'')]\<rparr>, w))
   \<and> (property parsed ''question'' = Some (JStr q) \<and> q \<noteq> [] \<longrightarrow>
        (status (fst (POST en (Inr parsed) w)) = 200 \<or> status (fst (POST en (Inr parsed) w)) = 500)
        \<and> (\<exists>sid ts. Recorded sid ts \<in> set (trace (snd (POST en (Inr parsed) w)))))\<close>
proof (intro conjI impI)
  assume "parsed \<noteq> JNull \<and> \<not> (\<exists>q. property parsed ''question'' = Some (JStr q) \<and> q \<noteq> [])"
  then show \<open>POST en (Inr parsed) w =
        (\<lparr>status = 400, body = JObj [(''error'', JStr ''Missing "question" in request body'')]\<rparr>, w)\<close>
    using POST_missing(1) [of parsed en w] by (simp add: missingQuestion_def)
next
  assume v: "property parsed ''question'' = Some (JStr q) \<and> q \<noteq> []"
  obtain sid w0 where e: "effectiveSessionId en (property parsed ''sessionId'') w = (sid, w0)"
    by (cases "effectiveSessionId en (property parsed ''sessionId'') w")
  from v e have p: "POST en (Inr parsed) w =
     (case askAgent en sid q w0 of
        (Inl err, w2) \<Rightarrow> (caught err, w2)
      | (Inr reply, w2) \<Rightarrow>
          (\<lparr>status = 200, body = JObj [(''reply'', JStr reply), (''sessionId'', JStr sid)]\<rparr>, w2))"
    by (intro POST_valid) simp_all
  show "status (fst (POST en (Inr parsed) w)) = 200 \<or> status (fst (POST en (Inr parsed) w)) = 500"
    unfolding p by (simp add: caught_def split: prod.split sum.split)
  from v e have "snd (POST en (Inr parsed) w) = snd (askAgent en sid q w0)"
    by (intro snd_POST_valid) simp_all
  moreover obtain post where "trace (snd (askAgent en sid q w0))
     = trace w0 @ (if 0 < waitFor w0 sid then [Slept (real_of_int (waitFor w0 sid))] else [])
         @ Recorded sid (clock (enforceCadence en sid w0)) # Sent (InvokeAgentCommand en sid q) # post"
    using trace_askAgent [of en sid q w0] by blast
  ultimately have "Recorded sid (clock (enforceCadence en sid w0))
      \<in> set (trace (snd (POST en (Inr parsed) w)))"
    by simp
  then show "\<exists>sid ts. Recorded sid ts \<in> set (trace (snd (POST en (Inr parsed) w)))"
    by blast
qed

theorem question_validation_witness:
  \<open>POST env0 (Inr (JObj [(''sessionId'', JStr ''abc'')])) world0 =
        (\<lparr>status = 400, body = JObj [(''error'', JStr ''Missing "question" in request body'')]\<rparr>, world0)
   \<and> POST env0 (Inr (JObj [(''question'', JNum 7)])) world0 =
        (\<lparr>status = 400, body = JObj [(''error'', JStr ''Missing "question" in request body'')]\<rparr>, world0)
   \<and> (status (fst (POST env0 (Inr (ask_hi ''abc'')) world0)) = 200
       \<or> status (fst (POST env0 (Inr (ask_hi ''abc'')) world0)) = 500)\<close>
  using question_validation [where parsed = "JObj [(''sessionId'', JStr ''abc'')]" and en = env0
      and w = world0]
    question_validation [where parsed = "JObj [(''question'', JNum 7)]" and en = env0
      and w = world0]
    question_validation [where parsed = "ask_hi ''abc''" and en = env0 and w = world0
      and q = "''hi''"]
  by (simp add: ask_hi_def)

text \<open>
  C5 as stated fails for the empty text: \<open>question\<close> is present and is a text, and the
  handler answers 400.
\<close>

theorem question_validation_counterexample:
  \<open>POST env0 (Inr ask_nothing) world0 =
     (\<lparr>status = 400, body = JObj [(''error'', JStr ''Missing "question" in request body'')]\<rparr>, world0)
   \<and> property ask_nothing ''question'' = Some (JStr [])\<close>
  by (simp add: POST_def ask_nothing_def missingQuestion_def)


text \<open>
  C6, as amended. For a request that passes validation, the session identifier in use is
  \<open>sessionId\<close> itself when that is a text with a character other than white space,
  and otherwise (absent, not a text, empty or all white space) the value of
  \<open>crypto.randomUUID()\<close>. Every agent call of the request carries that identifier, at
  least one call goes out, and a 200 response carries it in \<open>sessionId\<close>.
\<close>

theorem session_assignment:
  assumes "property parsed ''question'' = Some (JStr q)" "q \<noteq> []"
    and "sid = (case property parsed ''sessionId'' of
                  Some (JStr s) \<Rightarrow> if \<forall>c\<in>set s. whitespace c then randomUUID en (uuids w) else s
                | _ \<Rightarrow> randomUUID en (uuids w))"
  shows "(\<forall>c. Sent c \<in> set (trace (snd (POST en (Inr parsed) w))) \<longrightarrow>
            Sent c \<in> set (trace w) \<or> c = InvokeAgentCommand en sid q)
         \<and> Sent (InvokeAgentCommand en sid q) \<in> set (trace (snd (POST en (Inr parsed) w)))
         \<and> sessionId (InvokeAgentCommand en sid q) = sid
         \<and> (status (fst (POST en (Inr parsed) w)) = 200 \<longrightarrow>
              (\<exists>reply. body (fst (POST en (Inr parsed) w))
                 = JObj [(''reply'', JStr reply), (''sessionId'', JStr sid)]))"
proof -
  let ?cmd = "InvokeAgentCommand en sid q"
  obtain w0 where e: "effectiveSessionId en (property parsed ''sessionId'') w = (sid, w0)"
    using effectiveSessionId_fst [of en "property parsed ''sessionId''" w] assms(3)
    by (cases "effectiveSessionId en (property parsed ''sessionId'') w") simp
  have w': "snd (POST en (Inr parsed) w) = snd (askAgent en sid q w0)"
    using assms(1,2) e by (rule snd_POST_valid)
  obtain post where post: "trace (snd (askAgent en sid q w0))
     = trace w0 @ (if 0 < waitFor w0 sid then [Slept (real_of_int (waitFor w0 sid))] else [])
         @ Recorded sid (clock (enforceCadence en sid w0)) # Sent ?cmd # post"
    and only: "\<forall>e\<in>set post. e = Sent ?cmd \<or> (\<exists>ms. e = Slept ms)"
    using trace_askAgent [of en sid q w0] by blast
  have t0: "trace w0 = trace w" using e by (rule effectiveSessionId_snd)
  have "\<forall>c. Sent c \<in> set (trace (snd (POST en (Inr parsed) w))) \<longrightarrow>
            Sent c \<in> set (trace w) \<or> c = ?cmd"
    using only by (auto simp: w' post t0)
  moreover have "Sent ?cmd \<in> set (trace (snd (POST en (Inr parsed) w)))"
    by (simp add: w' post)
  moreover have "sessionId ?cmd = sid" by (simp add: InvokeAgentCommand_def)
  moreover have "status (fst (POST en (Inr parsed) w)) = 200 \<longrightarrow>
              (\<exists>reply. body (fst (POST en (Inr parsed) w))
                 = JObj [(''reply'', JStr reply), (''sessionId'', JStr sid)])"
    unfolding POST_valid [OF assms(1,2) e]
    by (simp add: caught_def split: prod.split sum.split)
  ultimately show ?thesis by blast
qed

lemmas chat_defs =
  ask_hi_def ask_nothing_def Let_def effectiveSessionId_def trim_def whitespace_def
  askAgent_def askAgent_simple_def enforceCadence_def waitFor_def sessionLag_def globalLag_def
  SESSION_DELAY_def GLOBAL_DELAY_def sleep_def InvokeAgentCommand_def AGENT_ID_def
  AGENT_ALIAS_ID_def env_or_def callBedrockWithRetry_def callBedrockWithRetry_simple_def
  retryLoop.simps backoff_def backoff_simple_def invoke_def throttling_def env_after_def
  env_denied_def env_silent_def env0_def world0_def cmd0_def readReply_def hello_def
  orFallback_def appendChunk_def caught_def char_of_def bit_0

theorem session_assignment_witness:
  "Sent (InvokeAgentCommand (env_after 0 hello) ''abc'' ''hi'')
     \<in> set (trace (snd (POST (env_after 0 hello) (Inr (ask_hi ''abc'')) world0)))
   \<and> sessionId (InvokeAgentCommand (env_after 0 hello) ''abc'' ''hi'') = ''abc''
   \<and> Sent (InvokeAgentCommand (env_after 0 hello) ''generated-id'' ''hi'')
     \<in> set (trace (snd (POST (env_after 0 hello) (Inr (JObj [(''question'', JStr ''hi'')])) world0)))
   \<and> sessionId (InvokeAgentCommand (env_after 0 hello) ''generated-id'' ''hi'') = ''generated-id''"
  using session_assignment [where parsed = "ask_hi ''abc''" and q = "''hi''" and sid = "''abc''"
      and en = "env_after 0 hello" and w = world0]
    session_assignment [where parsed = "JObj [(''question'', JStr ''hi'')]" and q = "''hi''"
      and sid = "''generated-id''" and en = "env_after 0 hello" and w = world0]
  by (simp add: ask_hi_def whitespace_def env_after_def env0_def world0_def)

text \<open>
  C6 as stated fails for a \<open>sessionId\<close> of two spaces: it is a text and not empty, and
  the call and the response carry the generated identifier instead.
\<close>

theorem session_assignment_counterexample:
  "POST (env_after 0 hello) (Inr (ask_hi ''  '')) world0
     = (\<lparr>status = 200,
         body = JObj [(''reply'', JStr ''Hello''), (''sessionId'', JStr ''generated-id'')]\<rparr>,
        world0\<lparr>lastCallPerSession := [''generated-id'' \<mapsto> 1000000], lastGlobalCall := 1000000,
          sends := 1, uuids := 1,
          trace := [Recorded ''generated-id'' 1000000, Sent (cmd0\<lparr>sessionId := ''generated-id''\<rparr>)]\<rparr>)
   \<and> property (ask_hi ''  '') ''sessionId'' = Some (JStr ''  '')"
  by (simp add: POST_def chat_defs)

lemma pacing_retryLoop:
  assumes p: "\<And>a w. lastGlobalCall (wt en a w) = lastGlobalCall w
                  \<and> lastCallPerSession (wt en a w) = lastCallPerSession w"
  shows "lastGlobalCall (snd (retryLoop wt en cmd m a le w)) = lastGlobalCall w
         \<and> lastCallPerSession (snd (retryLoop wt en cmd m a le w)) = lastCallPerSession w"
proof (induction "nat (m + 1 - int a)" arbitrary: a le w)
  case 0
  then have "\<not> int a \<le> m" by simp
  then show ?case by (simp add: retryLoop_done)
next
  case (Suc n)
  then have le: "int a \<le> m" by simp
  have i: "lastGlobalCall (snd (invoke en cmd (wt en a w))) = lastGlobalCall w
      \<and> lastCallPerSession (snd (invoke en cmd (wt en a w))) = lastCallPerSession w"
    using p [of a w] by (simp add: invoke_def)
  from le show ?case
  proof (cases rule: retryLoop_cases [where en = en and wt = wt and w = w and cmd = cmd and le = le])
    case (success r)
    with i show ?thesis by simp
  next
    case (fatal e)
    with i show ?thesis by simp
  next
    case (retry e)
    have "n = nat (m + 1 - int (a + 1))" using Suc.hyps(2) by simp
    from Suc.hyps(1) [OF this, where le = "Some e" and w = "snd (invoke en cmd (wt en a w))"]
      retry i
    show ?thesis by simp
  qed
qed

lemma pacing_askAgent_simple:
  "lastGlobalCall (snd (askAgent_simple en sid q w)) = lastGlobalCall w
   \<and> lastCallPerSession (snd (askAgent_simple en sid q w)) = lastCallPerSession w"
  unfolding snd_askAgent callBedrockWithRetry_simple_def
  by (rule pacing_retryLoop) (simp add: backoff_simple_def sleep_def Let_def)

text \<open>
  C8, as amended. In \<open>POST\<close> of lines 66 to 128, for a request that passes validation,
  the events of the request are at most a wait, then the write of the time stamp that
  ends \<open>enforceCadence\<close> for the session in use, and only then the first agent call. The
  second \<open>POST\<close> (lines 169 to 229) has no limiter: its first event is the agent call,
  it records no time stamp and leaves the pacing state as it was.
\<close>

theorem cadence_before_call:
  assumes "property parsed ''question'' = Some (JStr q)" "q \<noteq> []"
    and "effectiveSessionId en (property parsed ''sessionId'') w = (sid, w0)"
  shows "(\<exists>pre ts post. trace (snd (POST en (Inr parsed) w))
            = trace w @ pre @ Recorded sid ts # Sent (InvokeAgentCommand en sid q) # post
          \<and> (\<forall>c. Sent c \<notin> set pre)
          \<and> lastCallPerSession (enforceCadence en sid w0) sid = Some ts)
       \<and> (\<exists>post. trace (snd (POST_simple en (Inr parsed) w))
            = trace w @ Sent (InvokeAgentCommand en sid q) # post
          \<and> (\<forall>s ts. Recorded s ts \<notin> set post))
       \<and> lastGlobalCall (snd (POST_simple en (Inr parsed) w)) = lastGlobalCall w
       \<and> lastCallPerSession (snd (POST_simple en (Inr parsed) w)) = lastCallPerSession w"
proof -
  let ?cmd = "InvokeAgentCommand en sid q"
  have t0: "trace w0 = trace w" "lastGlobalCall w0 = lastGlobalCall w"
    "lastCallPerSession w0 = lastCallPerSession w"
    using assms(3) by (rule effectiveSessionId_snd)+
  have w1: "snd (POST en (Inr parsed) w) = snd (askAgent en sid q w0)"
    and w2: "snd (POST_simple en (Inr parsed) w) = snd (askAgent_simple en sid q w0)"
    using assms by (rule snd_POST_valid)+
  obtain post where post: "trace (snd (askAgent en sid q w0))
     = trace w0 @ (if 0 < waitFor w0 sid then [Slept (real_of_int (waitFor w0 sid))] else [])
         @ Recorded sid (clock (enforceCadence en sid w0)) # Sent ?cmd # post"
    using trace_askAgent [of en sid q w0] by blast
  let ?pre = "if 0 < waitFor w0 sid then [Slept (real_of_int (waitFor w0 sid))] else []"
  have "trace (snd (POST en (Inr parsed) w))
            = trace w @ ?pre @ Recorded sid (clock (enforceCadence en sid w0)) # Sent ?cmd # post
          \<and> (\<forall>c. Sent c \<notin> set ?pre)
          \<and> lastCallPerSession (enforceCadence en sid w0) sid
              = Some (clock (enforceCadence en sid w0))"
    by (simp add: w1 post t0 enforceCadence_records)
  then have first: "\<exists>pre ts post. trace (snd (POST en (Inr parsed) w))
            = trace w @ pre @ Recorded sid ts # Sent ?cmd # post
          \<and> (\<forall>c. Sent c \<notin> set pre)
          \<and> lastCallPerSession (enforceCadence en sid w0) sid = Some ts"
    by blast
  obtain post' where post': "trace (snd (askAgent_simple en sid q w0))
     = trace w0 @ Sent ?cmd # post'"
    and only: "\<forall>e\<in>set post'. e = Sent ?cmd \<or> (\<exists>ms. e = Slept ms)"
    using trace_askAgent_simple [of en sid q w0] by blast
  have "trace (snd (POST_simple en (Inr parsed) w)) = trace w @ Sent ?cmd # post'
          \<and> (\<forall>s ts. Recorded s ts \<notin> set post')"
    using only by (auto simp: w2 post' t0)
  then have second: "\<exists>post. trace (snd (POST_simple en (Inr parsed) w))
            = trace w @ Sent ?cmd # post \<and> (\<forall>s ts. Recorded s ts \<notin> set post)"
    by blast
  show ?thesis
    using first second pacing_askAgent_simple [of en sid q w0] by (simp add: w2 t0)
qed

theorem cadence_before_call_witness:
  "(\<exists>pre ts post. trace (snd (POST env0 (Inr (ask_hi ''abc'')) world0))
            = trace world0 @ pre @ Recorded ''abc'' ts # Sent cmd0 # post
          \<and> (\<forall>c. Sent c \<notin> set pre)
          \<and> lastCallPerSession (enforceCadence env0 ''abc'' world0) ''abc'' = Some ts)
   \<and> lastGlobalCall (snd (POST_simple env0 (Inr (ask_hi ''abc'')) world0)) = 0"
  using cadence_before_call [where parsed = "ask_hi ''abc''" and q = "''hi''" and sid = "''abc''"
      and en = env0 and w = world0 and ?w0.0 = world0]
  by (simp add: ask_hi_def effectiveSessionId_def trim_def whitespace_def InvokeAgentCommand_def
      AGENT_ID_def AGENT_ALIAS_ID_def env_or_def cmd0_def env0_def world0_def)

text \<open>
  C8 as stated fails on lines 169 to 229: a request that passes validation is answered
  after one agent call, with no time stamp recorded for its session.
\<close>

theorem cadence_before_call_counterexample:
  "trace (snd (POST_simple (env_after 0 hello) (Inr (ask_hi ''abc'')) world0)) = [Sent cmd0]
   \<and> lastCallPerSession (snd (POST_simple (env_after 0 hello) (Inr (ask_hi ''abc'')) world0)) ''abc''
       = None
   \<and> fst (POST_simple (env_after 0 hello) (Inr (ask_hi ''abc'')) world0)
       = \<lparr>status = 200, body = JObj [(''reply'', JStr ''Hello''), (''sessionId'', JStr ''abc'')]\<rparr>"
  by (simp add: POST_simple_def chat_defs)

text \<open>
  C9. For a request that passes validation: when the gateway returns a reply, the
  response is 200 with exactly \<open>reply\<close> and \<open>sessionId\<close>; when it throws an error, the
  response is 500 with \<open>error\<close> equal to the error's message if that is not empty and to
  the generic message otherwise. The gateway never throws \<open>undefined\<close>.
\<close>

theorem handler_responses:
  assumes "property parsed ''question'' = Some (JStr q)" "q \<noteq> []"
    and "effectiveSessionId en (property parsed ''sessionId'') w = (sid, w0)"
  shows "case askAgent en sid q w0 of
           (Inr reply, w2) \<Rightarrow>
             POST en (Inr parsed) w
               = (\<lparr>status = 200,
                   body = JObj [(''reply'', JStr reply), (''sessionId'', JStr sid)]\<rparr>, w2)
         | (Inl (Thrown e), w2) \<Rightarrow>
             POST en (Inr parsed) w
               = (\<lparr>status = 500,
                   body = JObj [(''error'', JStr
                     (if message e \<noteq> [] then message e
                      else ''Failed to contact the Finance Agent due to rate limiting or another error.''))]\<rparr>,
                  w2)
         | (Inl ThrownUndefined, w2) \<Rightarrow> False"
  using askAgent_defined [of en sid q w0]
  by (auto simp: POST_valid [OF assms] caught_def split: prod.split sum.split thrown.split)

theorem handler_responses_witness:
  "POST (env_after 1 hello) (Inr (ask_hi ''abc'')) world0
     = (\<lparr>status = 200, body = JObj [(''reply'', JStr ''Hello''), (''sessionId'', JStr ''abc'')]\<rparr>,
        snd (askAgent (env_after 1 hello) ''abc'' ''hi'' world0))
   \<and> POST env0 (Inr (ask_hi ''abc'')) world0
     = (\<lparr>status = 500, body = JObj [(''error'', JStr ''slow down'')]\<rparr>,
        snd (askAgent env0 ''abc'' ''hi'' world0))
   \<and> POST env_silent (Inr (ask_hi ''abc'')) world0
     = (\<lparr>status = 500, body = JObj [(''error'', JStr
          ''Failed to contact the Finance Agent due to rate limiting or another error.'')]\<rparr>,
        snd (askAgent env_silent ''abc'' ''hi'' world0))"
proof -
  have a: "fst (askAgent (env_after 1 hello) ''abc'' ''hi'' world0) = Inr ''Hello''"
    "fst (askAgent env0 ''abc'' ''hi'' world0)
       = Inl (Thrown \<lparr>name = ''ThrottlingException'', message = ''slow down''\<rparr>)"
    "fst (askAgent env_silent ''abc'' ''hi'' world0) = Inl (Thrown \<lparr>name = ''Error'', message = []\<rparr>)"
    by (simp_all add: chat_defs)
  have e: "effectiveSessionId en (property (ask_hi ''abc'') ''sessionId'') world0 = (''abc'', world0)"
    "property (ask_hi ''abc'') ''question'' = Some (JStr ''hi'')" for en
    by (simp_all add: ask_hi_def effectiveSessionId_def trim_def whitespace_def)
  from handler_responses [OF e(2) _ e(1), of "env_after 1 hello"]
    handler_responses [OF e(2) _ e(1), of env0]
    handler_responses [OF e(2) _ e(1), of env_silent] a
  show ?thesis
    by (simp add: split_beta split: sum.splits thrown.splits)
qed

section \<open>The agent gateway: the returned reply\<close>

text \<open>
  C7. When the agent call succeeds, at once or after throttled attempts, the reply that
  the gateway returns is the concatenation, in arrival order, of the decoded byte
  payloads of the events of the response, events without a payload adding nothing; when
  that text is empty or all white space, and so too for a stream of no events and for an
  absent completion, the reply is the fixed fallback message. Two chunks decoding to
  \<open>He\<close> and \<open>llo\<close> give \<open>Hello\<close>. The handler puts that reply in its 200 response.
\<close>

theorem agent_reply:
  assumes "\<forall>i<k. \<exists>e. bedrockSend en (sends w + i) (InvokeAgentCommand en sid q) = Inl e
                    \<and> throttling e"
    and "bedrockSend en (sends w + k) (InvokeAgentCommand en sid q) = Inr r"
    and "k \<le> 2"
  shows "(completion r = Some (events, None) \<longrightarrow>
            fst (askAgent en sid q w)
              = Inr (if \<forall>c\<in>set (concat (map (textDecode en) (payloads events))). whitespace c
                     then ''Sorry, I could not get a response from the Finance Agent.''
                     else concat (map (textDecode en) (payloads events))))
       \<and> (completion r = Some ([], None) \<or> completion r = None \<longrightarrow>
            fst (askAgent en sid q w)
              = Inr ''Sorry, I could not get a response from the Finance Agent.'')
       \<and> (completion r = Some ([Chunk (Some he), Chunk (Some llo)], None)
            \<and> textDecode en he = ''He'' \<and> textDecode en llo = ''llo'' \<longrightarrow>
            fst (askAgent en sid q w) = Inr ''Hello'')
       \<and> (completion r = Some (events, None)
            \<and> property parsed ''question'' = Some (JStr q) \<and> q \<noteq> []
            \<and> effectiveSessionId en (property parsed ''sessionId'') w' = (sid, w) \<longrightarrow>
            fst (POST en (Inr parsed) w')
              = \<lparr>status = 200,
                 body = JObj [(''reply'', JStr
                   (if \<forall>c\<in>set (concat (map (textDecode en) (payloads events))). whitespace c
                    then ''Sorry, I could not get a response from the Finance Agent.''
                    else concat (map (textDecode en) (payloads events)))),
                   (''sessionId'', JStr sid)]\<rparr>)"
proof -
  let ?cmd = "InvokeAgentCommand en sid q"
  let ?w1 = "enforceCadence en sid w"
  have "fst (retryLoop backoff en ?cmd 2 0 None ?w1) = Inr r
      \<and> sends (snd (retryLoop backoff en ?cmd 2 0 None ?w1)) = sends ?w1 + k + 1"
    using assms by (intro retry_then_success) (simp_all add: sends_backoff sends_enforceCadence)
  then have ask: "fst (askAgent en sid q w) = readReply en r"
    by (simp add: fst_askAgent callBedrockWithRetry_def)
  have gen: "fst (askAgent en sid q w)
              = Inr (if \<forall>c\<in>set (concat (map (textDecode en) (payloads evs))). whitespace c
                     then ''Sorry, I could not get a response from the Finance Agent.''
                     else concat (map (textDecode en) (payloads evs)))"
    if "completion r = Some (evs, None)" for evs
    using that by (simp only: ask readReply_ended(1))
  have none: "fst (askAgent en sid q w)
      = Inr ''Sorry, I could not get a response from the Finance Agent.''"
    if "completion r = None"
    using that by (simp only: ask readReply_ended(2))
  have post: "fst (POST en (Inr parsed) w')
      = \<lparr>status = 200,
         body = JObj [(''reply'', JStr
           (if \<forall>c\<in>set (concat (map (textDecode en) (payloads events))). whitespace c
            then ''Sorry, I could not get a response from the Finance Agent.''
            else concat (map (textDecode en) (payloads events)))),
           (''sessionId'', JStr sid)]\<rparr>"
    if c: "completion r = Some (events, None)"
      and v: "property parsed ''question'' = Some (JStr q)" "q \<noteq> []"
        "effectiveSessionId en (property parsed ''sessionId'') w' = (sid, w)"
  proof -
    from gen [OF c] obtain w2 where "askAgent en sid q w
        = (Inr (if \<forall>c\<in>set (concat (map (textDecode en) (payloads events))). whitespace c
                then ''Sorry, I could not get a response from the Finance Agent.''
                else concat (map (textDecode en) (payloads events))), w2)"
      by (cases "askAgent en sid q w") simp
    then show ?thesis
      by (simp only: POST_valid [OF v] prod.case sum.case fst_conv)
  qed
  show ?thesis
  proof (intro conjI impI)
    assume "completion r = Some (events, None)"
    then show "fst (askAgent en sid q w)
              = Inr (if \<forall>c\<in>set (concat (map (textDecode en) (payloads events))). whitespace c
                     then ''Sorry, I could not get a response from the Finance Agent.''
                     else concat (map (textDecode en) (payloads events)))"
      by (rule gen)
  next
    assume "completion r = Some ([], None) \<or> completion r = None"
    then show "fst (askAgent en sid q w)
              = Inr ''Sorry, I could not get a response from the Finance Agent.''"
      using gen [of "[]"] none by auto
  next
    assume "completion r = Some ([Chunk (Some he), Chunk (Some llo)], None)
            \<and> textDecode en he = ''He'' \<and> textDecode en llo = ''llo''"
    then show "fst (askAgent en sid q w) = Inr ''Hello''"
      using gen [of "[Chunk (Some he), Chunk (Some llo)]"] by (simp add: whitespace_def)
  next
    assume "completion r = Some (events, None)
            \<and> property parsed ''question'' = Some (JStr q) \<and> q \<noteq> []
            \<and> effectiveSessionId en (property parsed ''sessionId'') w' = (sid, w)"
    then show "fst (POST en (Inr parsed) w')
      = \<lparr>status = 200,
         body = JObj [(''reply'', JStr
           (if \<forall>c\<in>set (concat (map (textDecode en) (payloads events))). whitespace c
            then ''Sorry, I could not get a response from the Finance Agent.''
            else concat (map (textDecode en) (payloads events)))),
           (''sessionId'', JStr sid)]\<rparr>"
      using post by blast
  qed
qed


theorem agent_reply_witness:
  "fst (askAgent (env_after 1 hello) ''abc'' ''hi'' world0) = Inr ''Hello''
   \<and> fst (POST (env_after 1 hello) (Inr (ask_hi ''abc'')) world0)
       = \<lparr>status = 200, body = JObj [(''reply'', JStr ''Hello''), (''sessionId'', JStr ''abc'')]\<rparr>
   \<and> fst (askAgent (env_after 0 \<lparr>completion = Some ([Chunk (Some [32, 10]), Chunk None], None)\<rparr>)
          ''abc'' ''hi'' world0)
       = Inr ''Sorry, I could not get a response from the Finance Agent.''
   \<and> fst (askAgent (env_after 0 \<lparr>completion = None\<rparr>) ''abc'' ''hi'' world0)
       = Inr ''Sorry, I could not get a response from the Finance Agent.''"
proof -
  have d: "textDecode (env_after k r) = textDecode env0" for k r
    by (simp add: env_after_def)
  have e: "effectiveSessionId en (property (ask_hi ''abc'') ''sessionId'') world0 = (''abc'', world0)"
    "property (ask_hi ''abc'') ''question'' = Some (JStr ''hi'')" for en
    by (simp_all add: ask_hi_def effectiveSessionId_def trim_def whitespace_def)
  from agent_reply [where en = "env_after 1 hello" and k = 1 and w = world0 and sid = "''abc''"
      and q = "''hi''" and r = hello and parsed = "ask_hi ''abc''" and w' = world0
      and events = "[Chunk (Some [72, 101]), NoChunk, Chunk None, Chunk (Some [108, 108, 111])]"]
  have "fst (askAgent (env_after 1 hello) ''abc'' ''hi'' world0) = Inr ''Hello''
   \<and> fst (POST (env_after 1 hello) (Inr (ask_hi ''abc'')) world0)
       = \<lparr>status = 200, body = JObj [(''reply'', JStr ''Hello''), (''sessionId'', JStr ''abc'')]\<rparr>"
    by (simp add: e d textDecode_env0 whitespace_def hello_def)
       (simp add: env_after_def env0_def world0_def throttling_def)
  moreover
  from agent_reply [where en = "env_after 0 \<lparr>completion = Some ([Chunk (Some [32, 10]), Chunk None], None)\<rparr>"
      and k = 0 and w = world0 and sid = "''abc''" and q = "''hi''"
      and r = "\<lparr>completion = Some ([Chunk (Some [32, 10]), Chunk None], None)\<rparr>"
      and events = "[Chunk (Some [32, 10]), Chunk None]"]
  have "fst (askAgent (env_after 0 \<lparr>completion = Some ([Chunk (Some [32, 10]), Chunk None], None)\<rparr>)
          ''abc'' ''hi'' world0)
       = Inr ''Sorry, I could not get a response from the Finance Agent.''"
    by (simp add: d textDecode_env0 whitespace_def)
       (simp add: env_after_def env0_def world0_def)
  moreover
  from agent_reply [where en = "env_after 0 \<lparr>completion = None\<rparr>"
      and k = 0 and w = world0 and sid = "''abc''" and q = "''hi''"
      and r = "\<lparr>completion = None\<rparr>"]
  have "fst (askAgent (env_after 0 \<lparr>completion = None\<rparr>) ''abc'' ''hi'' world0)
       = Inr ''Sorry, I could not get a response from the Finance Agent.''"
    by (simp add: env_after_def env0_def world0_def)
  ultimately show ?thesis by blast
qed

end
